theory Spec2Isabelle
  imports Main "HOL-Library.AList"
begin

section \<open>pyfastmem: the storage engine of \<^verbatim>\<open>pyfastmem/storage.py\<close>\<close>

text \<open>
  The two classes of \<^verbatim>\<open>storage.py\<close> are embedded over one record of everything they
  read and write: \<^verbatim>\<open>Storage._fernet\<close>, \<^verbatim>\<open>MemoryManager._memory\<close>,
  \<^verbatim>\<open>MemoryManager._locked\<close> and the files of the storage directory. A method is a
  function from that record to a result and the record after the call; a raised exception
  is the result \<open>Inl e\<close>, and the record returned with it holds whatever the method had
  already changed when it raised.
\<close>

subsection \<open>Values, exceptions, results\<close>

text \<open>
  The values handed to \<^verbatim>\<open>set\<close> (\<^verbatim>\<open>value: Any\<close>) are the Python values that
  \<^verbatim>\<open>json.dumps\<close> accepts: \<^verbatim>\<open>None\<close>, booleans, integers, floats, strings, lists,
  tuples, and dictionaries whose keys are strings, integers, floats, booleans or \<^verbatim>\<open>None\<close>
  (a list of pairs in insertion order, whose keys are distinct in every dictionary Python
  builds). A float is given by its \<^verbatim>\<open>repr\<close>, the text that determines it
  (\<^verbatim>\<open>'1.5'\<close>, \<^verbatim>\<open>'inf'\<close>, \<^verbatim>\<open>'nan'\<close>). On these values \<^verbatim>\<open>json.dumps\<close> raises
  nothing; a value outside them (a set, bytes, an object) makes it raise \<^verbatim>\<open>TypeError\<close>
  and is not a value of the model.
\<close>

datatype pykey =
    KStr string
  | KInt int
  | KFloat string
  | KBool bool
  | KNone

datatype pyval =
    PNone
  | PBool bool
  | PInt int
  | PFloat string
  | PStr string
  | PList "pyval list"
  | PTuple "pyval list"
  | PDict "(pykey \<times> pyval) list"

text \<open>
  The exceptions that \<^verbatim>\<open>storage.py\<close> raises or receives. Each carries what \<^verbatim>\<open>str(e)\<close>
  is built from: the message for the ones raised with a message, the file name (inside the
  storage directory) for \<^verbatim>\<open>FileNotFoundError\<close>. \<^verbatim>\<open>cryptography.fernet.InvalidToken\<close> is
  raised without arguments, so its text is empty.
\<close>

datatype exn =
    ValueError string
  | RuntimeError string
  | InvalidToken
  | FileNotFoundError string
  | JSONDecodeError string
  | AttributeError string
  | UnicodeEncodeError string

fun str_exn :: "exn \<Rightarrow> string" where
  "str_exn (ValueError m) = m"
| "str_exn (RuntimeError m) = m"
| "str_exn InvalidToken = []"
| "str_exn (FileNotFoundError p) = ''[Errno 2] No such file or directory: '' @ [CHR 39] @ p @ [CHR 39]"
| "str_exn (JSONDecodeError m) = m"
| "str_exn (AttributeError m) = m"
| "str_exn (UnicodeEncodeError m) = m"

text \<open>\<^verbatim>\<open>except OSError\<close> catches \<^verbatim>\<open>FileNotFoundError\<close>, its subclass, and none of the others.\<close>

fun is_OSError :: "exn \<Rightarrow> bool" where
  "is_OSError (FileNotFoundError p) = True"
| "is_OSError e = False"

subsection \<open>Passwords\<close>

text \<open>
  A password is a Python \<^verbatim>\<open>str\<close>, a sequence of code points, and \<^verbatim>\<open>password.encode()\<close>
  is its UTF-8 encoding, which raises \<^verbatim>\<open>UnicodeEncodeError\<close> on a surrogate code point
  (\<^verbatim>\<open>'\ud800'.encode()\<close>). \<open>py s\<close> is the \<^verbatim>\<open>str\<close> of an ASCII text. The other strings of
  the module are modelled by their bytes: the JSON text that \<^verbatim>\<open>encrypt\<close> encodes is
  ASCII, keys are never encoded, and the name of a snapshot, which reaches the file system,
  is taken to be a text that encodes.
\<close>

type_synonym pystr = "nat list"

definition is_surrogate :: "nat \<Rightarrow> bool" where
  "is_surrogate c \<longleftrightarrow> 55296 \<le> c \<and> c \<le> 57343"

definition utf8 :: "nat \<Rightarrow> string" where
  "utf8 c =
     (if c < 128 then [char_of c]
      else if c < 2048 then [char_of (192 + c div 64), char_of (128 + c mod 64)]
      else if c < 65536 then
        [char_of (224 + c div 4096), char_of (128 + c div 64 mod 64), char_of (128 + c mod 64)]
      else
        [char_of (240 + c div 262144), char_of (128 + c div 4096 mod 64),
         char_of (128 + c div 64 mod 64), char_of (128 + c mod 64)])"

definition str_encode :: "pystr \<Rightarrow> exn + string" where
  "str_encode s =
     (if list_ex is_surrogate s then Inl (UnicodeEncodeError ''surrogates not allowed'')
      else Inr (concat (map utf8 s)))"

definition py :: "string \<Rightarrow> pystr" where
  "py s = map of_char s"

subsection \<open>The libraries the module calls\<close>

text \<open>
  \<^verbatim>\<open>json\<close> and \<^verbatim>\<open>cryptography\<close> are not part of the repository: they are parameters of
  the model. \<open>json_dumps\<close> is \<^verbatim>\<open>json.dumps\<close> and \<open>json_loads\<close> is \<^verbatim>\<open>json.loads\<close>.
  \<open>pbkdf2 salt password\<close> stands for
  \<^verbatim>\<open>base64.urlsafe_b64encode(PBKDF2HMAC(SHA256, 32, salt, 480000).derive(password))\<close> on
  the encoded password, \<open>fernet_encrypt key nonce data\<close> for
  \<^verbatim>\<open>Fernet(key).encrypt(data.encode()).decode()\<close> where \<open>nonce\<close> is the initialisation
  vector and time stamp that Fernet draws, and \<open>fernet_decrypt key token\<close> for
  \<^verbatim>\<open>Fernet(key).decrypt(token.encode()).decode()\<close>. Parsing and decryption can raise;
  serialising a value of the model, deriving a key from bytes and encrypting cannot.
\<close>

record lib =
  json_dumps :: "pyval \<Rightarrow> string"
  json_loads :: "string \<Rightarrow> exn + pyval"
  pbkdf2 :: "string \<Rightarrow> string \<Rightarrow> string"
  fernet_encrypt :: "string \<Rightarrow> string \<Rightarrow> string \<Rightarrow> string"
  fernet_decrypt :: "string \<Rightarrow> string \<Rightarrow> exn + string"

text \<open>
  What \<^verbatim>\<open>json\<close> reads back from the text it wrote, by the conversion table of its
  documentation: a tuple is written as an array, as a list is, and a dictionary key that is
  not a string is written as the string of its JSON text (\<^verbatim>\<open>1\<close> as \<^verbatim>\<open>"1"\<close>,
  \<^verbatim>\<open>True\<close> as \<^verbatim>\<open>"true"\<close>, \<^verbatim>\<open>None\<close> as \<^verbatim>\<open>"null"\<close>, a float as its \<^verbatim>\<open>repr\<close> or
  \<^verbatim>\<open>"NaN"\<close>, \<^verbatim>\<open>"Infinity"\<close>, \<^verbatim>\<open>"-Infinity"\<close>). \<open>json_form v\<close> is \<open>v\<close> after that
  conversion. It is no part of \<^verbatim>\<open>storage.py\<close>, and the methods below do not use it: a
  theorem that needs it assumes it of the library, at the value it speaks of. The values
  that Python's \<^verbatim>\<open>==\<close> finds equal to their form are the ones with no tuple, no key
  that is not a string, and no \<^verbatim>\<open>nan\<close> (which is equal to nothing).
\<close>

definition digit_char :: "nat \<Rightarrow> char" where
  "digit_char d = ''0123456789'' ! d"

function str_nat :: "nat \<Rightarrow> string" where
  "str_nat n = (if n < 10 then [digit_char n] else str_nat (n div 10) @ [digit_char (n mod 10)])"
  by pat_completeness auto
termination
  by (relation "measure id") auto

definition str_int :: "int \<Rightarrow> string" where
  "str_int i = (if i < 0 then CHR ''-'' # str_nat (nat (- i)) else str_nat (nat i))"

fun key_str :: "pykey \<Rightarrow> string" where
  "key_str (KStr s) = s"
| "key_str (KInt i) = str_int i"
| "key_str (KFloat r) =
     (if r = ''nan'' then ''NaN''
      else if r = ''inf'' then ''Infinity''
      else if r = ''-inf'' then ''-Infinity''
      else r)"
| "key_str (KBool b) = (if b then ''true'' else ''false'')"
| "key_str KNone = ''null''"

fun json_form :: "pyval \<Rightarrow> pyval" where
  "json_form (PList vs) = PList (map json_form vs)"
| "json_form (PTuple vs) = PList (map json_form vs)"
| "json_form (PDict kvs) = PDict (map (\<lambda>kv. (KStr (key_str (fst kv)), json_form (snd kv))) kvs)"
| "json_form v = v"

fun is_KStr :: "pykey \<Rightarrow> bool" where
  "is_KStr (KStr s) = True"
| "is_KStr k = False"

fun json_native :: "pyval \<Rightarrow> bool" where
  "json_native (PList vs) = list_all json_native vs"
| "json_native (PTuple vs) = False"
| "json_native (PFloat r) = (r \<noteq> ''nan'')"
| "json_native (PDict kvs) = list_all (\<lambda>kv. is_KStr (fst kv) \<and> json_native (snd kv)) kvs"
| "json_native v = True"

subsection \<open>State\<close>

text \<open>
  \<open>fernet\<close> is \<^verbatim>\<open>Storage._fernet\<close> (the derived key, \<open>None\<close> before
  \<^verbatim>\<open>set_password\<close> or \<^verbatim>\<open>unlock\<close>), \<open>memory\<close> is \<^verbatim>\<open>MemoryManager._memory\<close>
  (a \<^verbatim>\<open>Dict[str, str]\<close> from key to file name, in insertion order), \<open>locked\<close> is
  \<^verbatim>\<open>MemoryManager._locked\<close>, and \<open>disk\<close> maps the name of each file of the directory
  \<^verbatim>\<open>Storage.path\<close> to its content: \<^verbatim>\<open>os.path.join(self.storage.path, x)\<close> is the
  entry \<open>x\<close>. Reading and removing fail on a file that does not exist and writing
  succeeds; other input/output failures (permissions, a full disk) are not modelled.
\<close>

record world =
  fernet :: "string option"
  memory :: "(string \<times> string) list"
  locked :: bool
  disk :: "string \<rightharpoonup> string"

type_synonym 'a res = "(exn + 'a) \<times> world"

definition open_read :: "string \<Rightarrow> world \<Rightarrow> exn + string" where
  "open_read p w = (case disk w p of None \<Rightarrow> Inl (FileNotFoundError p) | Some c \<Rightarrow> Inr c)"

definition os_remove :: "string \<Rightarrow> world \<Rightarrow> unit res" where
  "os_remove p w =
     (case disk w p of
        None \<Rightarrow> (Inl (FileNotFoundError p), w)
      | Some c \<Rightarrow> (Inr (), w\<lparr>disk := (disk w)(p := None)\<rparr>))"

subsection \<open>class Storage\<close>

text \<open>
  \<^verbatim>\<open>set_password\<close>: \<open>salt\<close> is the value of \<^verbatim>\<open>secrets.token_bytes(16)\<close>. The
  password is encoded before anything is assigned or written, so a password that cannot be
  encoded raises with nothing changed.
\<close>

definition Storage_set_password :: "lib \<Rightarrow> string \<Rightarrow> pystr \<Rightarrow> world \<Rightarrow> unit res" where
  "Storage_set_password L salt password w =
     (case str_encode password of
        Inl e \<Rightarrow> (Inl e, w)
      | Inr pw \<Rightarrow>
          let key = pbkdf2 L salt pw;
              w1 = w\<lparr>fernet := Some key\<rparr>
          in (Inr (), w1\<lparr>disk := (disk w1)(''.salt'' \<mapsto> salt)\<rparr>))"

definition Storage_load_salt :: "world \<Rightarrow> exn + string" where
  "Storage_load_salt w =
     (case disk w ''.salt'' of
        None \<Rightarrow> Inl (ValueError ''No password set for this storage'')
      | Some salt \<Rightarrow> Inr salt)"

text \<open>
  \<^verbatim>\<open>unlock\<close>: the body is inside \<^verbatim>\<open>try\<close>, and \<^verbatim>\<open>except Exception\<close> returns
  \<^verbatim>\<open>False\<close>. Two calls of the body can raise: \<^verbatim>\<open>_load_salt\<close> and
  \<^verbatim>\<open>password.encode()\<close>, both before \<^verbatim>\<open>self._fernet\<close> is assigned.
\<close>

definition Storage_unlock :: "lib \<Rightarrow> pystr \<Rightarrow> world \<Rightarrow> bool res" where
  "Storage_unlock L password w =
     (case Storage_load_salt w of
        Inl e \<Rightarrow> (Inr False, w)
      | Inr salt \<Rightarrow>
          (case str_encode password of
             Inl e \<Rightarrow> (Inr False, w)
           | Inr pw \<Rightarrow> (Inr True, w\<lparr>fernet := Some (pbkdf2 L salt pw)\<rparr>)))"

definition Storage_encrypt :: "lib \<Rightarrow> string \<Rightarrow> string \<Rightarrow> world \<Rightarrow> exn + string" where
  "Storage_encrypt L nonce data w =
     (case fernet w of
        None \<Rightarrow> Inl (ValueError ''Storage is locked'')
      | Some key \<Rightarrow> Inr (fernet_encrypt L key nonce data))"

definition Storage_decrypt :: "lib \<Rightarrow> string \<Rightarrow> world \<Rightarrow> exn + string" where
  "Storage_decrypt L token w =
     (case fernet w of
        None \<Rightarrow> Inl (ValueError ''Storage is locked'')
      | Some key \<Rightarrow> fernet_decrypt L key token)"

subsection \<open>class MemoryManager\<close>

text \<open>\<^verbatim>\<open>__init__\<close>: an empty dictionary and a cleared lock flag, on a given storage.\<close>

definition MemoryManager_init :: "string option \<Rightarrow> (string \<rightharpoonup> string) \<Rightarrow> world" where
  "MemoryManager_init k d = \<lparr>fernet = k, memory = [], locked = False, disk = d\<rparr>"

text \<open>
  \<^verbatim>\<open>set\<close>: \<open>tok\<close> is the value of \<^verbatim>\<open>secrets.token_hex(16)\<close> and \<open>nonce\<close> the
  randomness of the encryption. \<^verbatim>\<open>self._memory[key] = filename\<close> replaces the value of
  a key already there and appends a new key at the end, as \<open>AList.update\<close> does.
\<close>

definition MemoryManager_set ::
  "lib \<Rightarrow> string \<Rightarrow> string \<Rightarrow> string \<Rightarrow> pyval \<Rightarrow> world \<Rightarrow> unit res" where
  "MemoryManager_set L tok nonce key val w =
     (if locked w then (Inl (RuntimeError ''Memory is locked''), w)
      else
        let value_str = json_dumps L val in
        case Storage_encrypt L nonce value_str w of
          Inl e \<Rightarrow> (Inl e, w)
        | Inr encrypted \<Rightarrow>
            let filename = tok @ ''.dat'';
                w1 = w\<lparr>disk := (disk w)(filename \<mapsto> encrypted)\<rparr>
            in (Inr (), w1\<lparr>memory := AList.update key filename (memory w1)\<rparr>))"

text \<open>The body of the \<^verbatim>\<open>try\<close> of \<^verbatim>\<open>get\<close>: read the file, decrypt, parse.\<close>

definition read_value :: "lib \<Rightarrow> string \<Rightarrow> world \<Rightarrow> exn + pyval" where
  "read_value L filename w =
     (case open_read filename w of
        Inl e \<Rightarrow> Inl e
      | Inr encrypted \<Rightarrow>
          (case Storage_decrypt L encrypted w of
             Inl e \<Rightarrow> Inl e
           | Inr decrypted \<Rightarrow> json_loads L decrypted))"

definition read_failure :: "string \<Rightarrow> exn \<Rightarrow> exn" where
  "read_failure key e =
     RuntimeError (''Failed to read key '' @ [CHR 39] @ key @ [CHR 39] @ '': '' @ str_exn e)"

definition MemoryManager_get :: "lib \<Rightarrow> string \<Rightarrow> pyval \<Rightarrow> world \<Rightarrow> pyval res" where
  "MemoryManager_get L key dflt w =
     (case map_of (memory w) key of
        None \<Rightarrow> (Inr dflt, w)
      | Some filename \<Rightarrow>
          (case read_value L filename w of
             Inl e \<Rightarrow> (Inl (read_failure key e), w)
           | Inr v \<Rightarrow> (Inr v, w)))"

text \<open>\<^verbatim>\<open>delete\<close>: \<^verbatim>\<open>self._memory.pop(key)\<close>, then \<^verbatim>\<open>os.remove\<close> under \<^verbatim>\<open>except OSError\<close>.\<close>

definition MemoryManager_delete :: "string \<Rightarrow> world \<Rightarrow> bool res" where
  "MemoryManager_delete key w =
     (case map_of (memory w) key of
        Some filename \<Rightarrow>
          (let w1 = w\<lparr>memory := AList.delete key (memory w)\<rparr> in
           case os_remove filename w1 of
             (Inr u, w2) \<Rightarrow> (Inr True, w2)
           | (Inl e, w2) \<Rightarrow> if is_OSError e then (Inr False, w2) else (Inl e, w2))
      | None \<Rightarrow> (Inr False, w))"

text \<open>\<^verbatim>\<open>clear\<close>: one \<^verbatim>\<open>os.remove\<close> for each value of the dictionary, its \<^verbatim>\<open>OSError\<close> passed over.\<close>

definition remove_quietly :: "string \<Rightarrow> world \<Rightarrow> world" where
  "remove_quietly filename w = snd (os_remove filename w)"

definition MemoryManager_clear :: "world \<Rightarrow> unit res" where
  "MemoryManager_clear w =
     (if locked w then (Inl (RuntimeError ''Memory is locked''), w)
      else
        let w1 = fold remove_quietly (map snd (memory w)) w
        in (Inr (), w1\<lparr>memory := []\<rparr>))"

definition MemoryManager_lock :: "world \<Rightarrow> unit res" where
  "MemoryManager_lock w = (Inr (), w\<lparr>locked := True\<rparr>)"

definition MemoryManager_unlock :: "world \<Rightarrow> unit res" where
  "MemoryManager_unlock w = (Inr (), w\<lparr>locked := False\<rparr>)"

text \<open>
  The dictionary \<^verbatim>\<open>{'memory': self._memory, 'locked': self._locked}\<close> that \<^verbatim>\<open>save\<close>
  hands to \<^verbatim>\<open>json.dump\<close>.
\<close>

definition state_obj :: "(string \<times> string) list \<Rightarrow> bool \<Rightarrow> pyval" where
  "state_obj m l =
     PDict [(KStr ''memory'', PDict (map (\<lambda>(k, f). (KStr k, PStr f)) m)),
            (KStr ''locked'', PBool l)]"

definition MemoryManager_save :: "lib \<Rightarrow> string \<Rightarrow> world \<Rightarrow> unit res" where
  "MemoryManager_save L name w =
     (if locked w then (Inl (RuntimeError ''Memory is locked''), w)
      else
        let state = state_obj (memory w) (locked w);
            state_path = name @ ''.state''
        in (Inr (), w\<lparr>disk := (disk w)(state_path \<mapsto> json_dumps L state)\<rparr>))"

text \<open>
  \<^verbatim>\<open>load\<close>. \<^verbatim>\<open>state.get(k, d)\<close> needs a dictionary (anything else that \<^verbatim>\<open>json.load\<close>
  returns has no \<^verbatim>\<open>get\<close>: \<^verbatim>\<open>AttributeError\<close>). The source then stores whatever the two
  entries hold, unchecked. The state of the model has a \<^verbatim>\<open>Dict[str, str]\<close> (the
  annotation of \<^verbatim>\<open>_memory\<close>) and a boolean, so it has no state for a snapshot whose
  \<^verbatim>\<open>'memory'\<close> is not a dictionary of strings or whose \<^verbatim>\<open>'locked'\<close> is not a boolean:
  the model of \<^verbatim>\<open>load\<close> is partial, and \<open>None\<close> on such a snapshot says that the call is
  outside it, not that the call raises. Only \<^verbatim>\<open>FileNotFoundError\<close> is caught.
\<close>

fun as_entry :: "pykey \<times> pyval \<Rightarrow> (string \<times> string) option" where
  "as_entry (KStr k, PStr f) = Some (k, f)"
| "as_entry kv = None"

fun as_memory :: "pyval \<Rightarrow> (string \<times> string) list option" where
  "as_memory (PDict kvs) =
     (if list_all (\<lambda>kv. as_entry kv \<noteq> None) kvs
      then Some (map (\<lambda>kv. the (as_entry kv)) kvs) else None)"
| "as_memory v = None"

fun as_bool :: "pyval \<Rightarrow> bool option" where
  "as_bool (PBool b) = Some b"
| "as_bool v = None"

definition dict_get :: "(pykey \<times> pyval) list \<Rightarrow> string \<Rightarrow> pyval \<Rightarrow> pyval" where
  "dict_get d k dflt = (case map_of d (KStr k) of None \<Rightarrow> dflt | Some v \<Rightarrow> v)"

definition read_state ::
  "lib \<Rightarrow> string \<Rightarrow> world \<Rightarrow> (exn + (string \<times> string) list \<times> bool) option" where
  "read_state L state_path w =
     (case open_read state_path w of
        Inl e \<Rightarrow> Some (Inl e)
      | Inr text \<Rightarrow>
          (case json_loads L text of
             Inl e \<Rightarrow> Some (Inl e)
           | Inr (PDict state) \<Rightarrow>
               (case (as_memory (dict_get state ''memory'' (PDict [])),
                      as_bool (dict_get state ''locked'' (PBool False))) of
                  (Some m, Some l) \<Rightarrow> Some (Inr (m, l))
                | _ \<Rightarrow> None)
           | Inr v \<Rightarrow> Some (Inl (AttributeError ''get''))))"

definition MemoryManager_load :: "lib \<Rightarrow> string \<Rightarrow> world \<Rightarrow> unit res option" where
  "MemoryManager_load L name w =
     (if locked w then Some (Inl (RuntimeError ''Memory is locked''), w)
      else
        let state_path = name @ ''.state'' in
        case read_state L state_path w of
          None \<Rightarrow> None
        | Some (Inr (m, l)) \<Rightarrow> Some (Inr (), w\<lparr>memory := m, locked := l\<rparr>)
        | Some (Inl (FileNotFoundError p)) \<Rightarrow>
            Some (Inl (ValueError (''No saved state found with name '' @ [CHR 39] @ name @ [CHR 39])), w)
        | Some (Inl e) \<Rightarrow> Some (Inl e, w))"

subsection \<open>Runs of the index\<close>

text \<open>
  One call of a method of \<^verbatim>\<open>MemoryManager\<close>, with the random values it draws, and the
  state a sequence of calls leaves. A call that raises leaves the state the method had
  reached; the caller goes on with the same object. A run is \<open>None\<close> when one of its
  \<^verbatim>\<open>load\<close>s is outside the model.
\<close>

datatype op =
    OpSet string pyval string string
  | OpGet string pyval
  | OpDelete string
  | OpClear
  | OpLock
  | OpUnlock
  | OpSave string
  | OpLoad string

fun exec :: "lib \<Rightarrow> op \<Rightarrow> world \<Rightarrow> world option" where
  "exec L (OpSet key val tok nonce) w = Some (snd (MemoryManager_set L tok nonce key val w))"
| "exec L (OpGet key dflt) w = Some (snd (MemoryManager_get L key dflt w))"
| "exec L (OpDelete key) w = Some (snd (MemoryManager_delete key w))"
| "exec L OpClear w = Some (snd (MemoryManager_clear w))"
| "exec L OpLock w = Some (snd (MemoryManager_lock w))"
| "exec L OpUnlock w = Some (snd (MemoryManager_unlock w))"
| "exec L (OpSave name) w = Some (snd (MemoryManager_save L name w))"
| "exec L (OpLoad name) w = map_option snd (MemoryManager_load L name w)"

fun run :: "lib \<Rightarrow> op list \<Rightarrow> world \<Rightarrow> world option" where
  "run L [] w = Some w"
| "run L (x # xs) w = (case exec L x w of None \<Rightarrow> None | Some w' \<Rightarrow> run L xs w')"

text \<open>The values of \<^verbatim>\<open>secrets.token_hex(16)\<close> drawn in a run, in order.\<close>

fun op_tokens :: "op \<Rightarrow> string list" where
  "op_tokens (OpSet key val tok nonce) = [tok]"
| "op_tokens x = []"

definition tokens :: "op list \<Rightarrow> string list" where
  "tokens ops = concat (map op_tokens ops)"

subsection \<open>An instance of the libraries\<close>

text \<open>
  A small executable instance of \<open>lib\<close>, on which the model runs on concrete inputs: a
  prefix code for values instead of the JSON text, and a cipher that writes the key in
  front of the data and compares it on decryption. It is not the real \<^verbatim>\<open>json\<close> or
  \<^verbatim>\<open>cryptography\<close>; it shows that what the theorems below assume of a library can be had.
  Like \<^verbatim>\<open>json\<close>, the code writes a tuple as it writes a list and a key as its string,
  and reads back lists and string keys: it reads \<open>json_form v\<close> from the code of \<open>v\<close>.
\<close>

definition enc_nat :: "nat \<Rightarrow> string" where
  "enc_nat n = replicate n (CHR ''1'') @ ''0''"

definition dec_nat :: "string \<Rightarrow> (nat \<times> string) option" where
  "dec_nat t =
     (case dropWhile (\<lambda>c. c = CHR ''1'') t of
        [] \<Rightarrow> None
      | c # r \<Rightarrow> Some (length (takeWhile (\<lambda>c. c = CHR ''1'') t), r))"

definition enc_str :: "string \<Rightarrow> string" where
  "enc_str s = enc_nat (length s) @ s"

definition dec_str :: "string \<Rightarrow> (string \<times> string) option" where
  "dec_str t =
     (case dec_nat t of
        None \<Rightarrow> None
      | Some (n, r) \<Rightarrow> if n \<le> length r then Some (take n r, drop n r) else None)"

fun enc_val :: "pyval \<Rightarrow> string" where
  "enc_val PNone = ''n''"
| "enc_val (PBool b) = (if b then ''t'' else ''f'')"
| "enc_val (PInt i) = (if i < 0 then ''-'' else ''+'') @ enc_nat (nat \<bar>i\<bar>)"
| "enc_val (PFloat r) = ''d'' @ enc_str r"
| "enc_val (PStr s) = ''s'' @ enc_str s"
| "enc_val (PList vs) = ''['' @ concat (map (\<lambda>v. '','' @ enc_val v) vs) @ '']''"
| "enc_val (PTuple vs) = ''['' @ concat (map (\<lambda>v. '','' @ enc_val v) vs) @ '']''"
| "enc_val (PDict kvs) =
     ''{'' @ concat (map (\<lambda>kv. '','' @ enc_str (key_str (fst kv)) @ enc_val (snd kv)) kvs) @ ''}''"

fun dec_val :: "nat \<Rightarrow> string \<Rightarrow> (pyval \<times> string) option"
  and dec_items :: "nat \<Rightarrow> string \<Rightarrow> (pyval list \<times> string) option"
  and dec_pairs :: "nat \<Rightarrow> string \<Rightarrow> ((pykey \<times> pyval) list \<times> string) option" where
  "dec_val 0 t = None"
| "dec_val (Suc n) [] = None"
| "dec_val (Suc n) (c # r) =
     (if c = CHR ''n'' then Some (PNone, r)
      else if c = CHR ''t'' then Some (PBool True, r)
      else if c = CHR ''f'' then Some (PBool False, r)
      else if c = CHR ''+'' then map_option (\<lambda>(k, r'). (PInt (int k), r')) (dec_nat r)
      else if c = CHR ''-'' then map_option (\<lambda>(k, r'). (PInt (- int k), r')) (dec_nat r)
      else if c = CHR ''d'' then map_option (\<lambda>(s, r'). (PFloat s, r')) (dec_str r)
      else if c = CHR ''s'' then map_option (\<lambda>(s, r'). (PStr s, r')) (dec_str r)
      else if c = CHR ''['' then map_option (\<lambda>(vs, r'). (PList vs, r')) (dec_items n r)
      else if c = CHR ''{'' then map_option (\<lambda>(kvs, r'). (PDict kvs, r')) (dec_pairs n r)
      else None)"
| "dec_items 0 t = None"
| "dec_items (Suc n) [] = None"
| "dec_items (Suc n) (c # r) =
     (if c = CHR '']'' then Some ([], r)
      else if c = CHR '','' then
        (case dec_val n r of
           None \<Rightarrow> None
         | Some (v, r1) \<Rightarrow> map_option (\<lambda>(vs, r2). (v # vs, r2)) (dec_items n r1))
      else None)"
| "dec_pairs 0 t = None"
| "dec_pairs (Suc n) [] = None"
| "dec_pairs (Suc n) (c # r) =
     (if c = CHR ''}'' then Some ([], r)
      else if c = CHR '','' then
        (case dec_str r of
           None \<Rightarrow> None
         | Some (k, r0) \<Rightarrow>
             (case dec_val n r0 of
                None \<Rightarrow> None
              | Some (v, r1) \<Rightarrow>
                  map_option (\<lambda>(kvs, r2). ((KStr k, v) # kvs, r2)) (dec_pairs n r1)))
      else None)"

text \<open>The fuel that decoding the code of a value needs.\<close>

fun fuel :: "pyval \<Rightarrow> nat" where
  "fuel (PList vs) = Suc (sum_list (map (\<lambda>v. Suc (fuel v)) vs))"
| "fuel (PTuple vs) = Suc (sum_list (map (\<lambda>v. Suc (fuel v)) vs))"
| "fuel (PDict kvs) = Suc (sum_list (map (\<lambda>kv. Suc (fuel (snd kv))) kvs))"
| "fuel v = 1"

definition ref_loads :: "string \<Rightarrow> exn + pyval" where
  "ref_loads t =
     (case dec_val (Suc (length t)) t of
        Some (v, []) \<Rightarrow> Inr v
      | _ \<Rightarrow> Inl (JSONDecodeError ''Expecting value''))"

definition ref_encrypt :: "string \<Rightarrow> string \<Rightarrow> string \<Rightarrow> string" where
  "ref_encrypt key nonce data = enc_str key @ enc_str nonce @ data"

definition ref_decrypt :: "string \<Rightarrow> string \<Rightarrow> exn + string" where
  "ref_decrypt key token =
     (case dec_str token of
        None \<Rightarrow> Inl InvalidToken
      | Some (k, r) \<Rightarrow>
          (case dec_str r of
             None \<Rightarrow> Inl InvalidToken
           | Some (n, d) \<Rightarrow> if k = key then Inr d else Inl InvalidToken))"

definition ref_lib :: lib where
  "ref_lib =
     \<lparr>json_dumps = enc_val,
      json_loads = ref_loads,
      pbkdf2 = (\<lambda>salt password. enc_str salt @ password),
      fernet_encrypt = ref_encrypt,
      fernet_decrypt = ref_decrypt\<rparr>"

subsection \<open>Concrete states\<close>

text \<open>
  States on which the methods are evaluated below: a new manager on an empty directory, the
  same after \<^verbatim>\<open>set_password("correct horse")\<close>, after \<^verbatim>\<open>set("a", 42)\<close>, and after
  \<^verbatim>\<open>save("s")\<close>, \<^verbatim>\<open>delete("a")\<close>, \<^verbatim>\<open>load("s")\<close>, where the dictionary names a file
  that is gone.
\<close>

definition w_fresh :: world where
  "w_fresh = MemoryManager_init None Map.empty"

definition w_ready :: world where
  "w_ready = snd (Storage_set_password ref_lib ''salt'' (py ''correct horse'') w_fresh)"

definition w_one :: world where
  "w_one = snd (MemoryManager_set ref_lib ''00'' ''iv0'' ''a'' (PInt 42) w_ready)"

definition w_stale :: world where
  "w_stale =
     (case run ref_lib [OpSave ''s'', OpDelete ''a'', OpLoad ''s''] w_one of
        Some w \<Rightarrow> w
      | None \<Rightarrow> w_one)"

text \<open>
  Three more: \<open>w_one\<close> after a second \<^verbatim>\<open>set("a", 7)\<close>, after \<^verbatim>\<open>Storage.unlock\<close> with
  another password, and after \<^verbatim>\<open>lock()\<close>.
\<close>

definition w_again :: world where
  "w_again = snd (MemoryManager_set ref_lib ''01'' ''iv1'' ''a'' (PInt 7) w_one)"

definition w_wrong :: world where
  "w_wrong = snd (Storage_unlock ref_lib (py ''Tr0ub4dor'') w_one)"

definition w_locked :: world where
  "w_locked = snd (MemoryManager_lock w_one)"

text \<open>
  The directory that \<open>w_stale\<close> leaves to the next process: the salt and the snapshot
  \<open>s\<close>, whose dictionary names the blob of the token \<open>00\<close>. And a run of a new manager on
  it, which loads that snapshot, sets, saves, deletes, clears, loads and sets again.
\<close>

definition dir_example :: "string \<rightharpoonup> string" where
  "dir_example = disk w_stale"

definition ops_example :: "op list" where
  "ops_example =
     [OpLoad ''s'', OpSet ''b'' (PStr ''x'') ''01'' ''iv1'', OpSave ''t'', OpDelete ''a'', OpClear,
      OpLoad ''t'', OpSet ''c'' (PInt 5) ''02'' ''iv2'']"

subsection \<open>The invariant of the index\<close>

text \<open>
  \<open>U\<close> is the set of tokens drawn so far. A dictionary is good when its keys are distinct,
  its file names are distinct, and each file name is \<open>tok.dat\<close> for a token of \<open>U\<close>. A
  directory has saved snapshots when each of its snapshot files holds what \<^verbatim>\<open>save\<close>
  writes for a good dictionary (with the lock flag \<^verbatim>\<open>False\<close>). The invariant: the
  dictionary of the manager is good, and the directory has saved snapshots.
\<close>

definition blob_names :: "string set \<Rightarrow> string set" where
  "blob_names U = (\<lambda>tok. tok @ ''.dat'') ` U"

definition good_memory :: "string set \<Rightarrow> (string \<times> string) list \<Rightarrow> bool" where
  "good_memory U m \<longleftrightarrow>
     distinct (map fst m) \<and> distinct (map snd m) \<and> snd ` set m \<subseteq> blob_names U"

definition saved_snapshots :: "lib \<Rightarrow> string set \<Rightarrow> (string \<rightharpoonup> string) \<Rightarrow> bool" where
  "saved_snapshots L U d \<longleftrightarrow>
     (\<forall>name c. d (name @ ''.state'') = Some c \<longrightarrow>
        (\<exists>m. c = json_dumps L (state_obj m False) \<and> good_memory U m))"

definition index_inv :: "lib \<Rightarrow> string set \<Rightarrow> world \<Rightarrow> bool" where
  "index_inv L U w \<longleftrightarrow> good_memory U (memory w) \<and> saved_snapshots L U (disk w)"

section \<open>Values in JSON form, encoded passwords\<close>

lemma json_form_native: "json_native v \<Longrightarrow> json_form v = v"
proof (induction v)
  case (PList vs)
  then have "map json_form vs = vs"
    by (induction vs) auto
  then show ?case by simp
next
  case (PDict kvs)
  then have "map (\<lambda>kv. (KStr (key_str (fst kv)), json_form (snd kv))) kvs = kvs"
  proof (induction kvs)
    case Nil
    then show ?case by simp
  next
    case (Cons kv kvs)
    obtain k v where kv: "kv = (k, v)" by (cases kv)
    from Cons.prems(2) kv have k: "is_KStr k" and v: "json_native v" by simp_all
    from k have "KStr (key_str k) = k" by (cases k) simp_all
    moreover have "json_form v = v"
      using Cons.prems(1) [of kv v] kv v by simp
    moreover have "map (\<lambda>kv. (KStr (key_str (fst kv)), json_form (snd kv))) kvs = kvs"
    proof (rule Cons.IH)
      show "json_form y = y" if "x \<in> set kvs" "y \<in> Basic_BNFs.snds x" "json_native y" for x y
        using Cons.prems(1) [of x y] that by simp
      show "json_native (PDict kvs)" using Cons.prems(2) by simp
    qed
    ultimately show ?case by (simp add: kv)
  qed
  then show ?case by simp
qed simp_all

lemma json_form_state_obj: "json_form (state_obj m l) = state_obj m l"
  by (rule json_form_native) (simp add: state_obj_def list_all_iff split_beta)

lemma utf8_ascii: "of_char c < (128::nat) \<Longrightarrow> utf8 (of_char c) = [c]"
  by (simp add: utf8_def)

lemma not_surrogate_char: "\<not> is_surrogate (of_char c)"
proof -
  have "of_char c < (256::nat)" by simp
  then show ?thesis unfolding is_surrogate_def by linarith
qed

lemma str_encode_py: "list_all (\<lambda>c. of_char c < (128::nat)) s \<Longrightarrow> str_encode (py s) = Inr s"
proof -
  assume a: "list_all (\<lambda>c. of_char c < (128::nat)) s"
  have "\<not> list_ex is_surrogate (py s)"
    by (simp add: py_def list_ex_iff not_surrogate_char)
  moreover from a have "concat (map utf8 (py s)) = s"
    by (induction s) (simp_all add: py_def utf8_ascii)
  ultimately show ?thesis by (simp add: str_encode_def)
qed

section \<open>The instance of the libraries round-trips\<close>

lemma dec_nat_enc_nat: "dec_nat (enc_nat n @ r) = Some (n, r)"
  by (simp add: dec_nat_def enc_nat_def dropWhile_append3 takeWhile_append2 takeWhile_tail)

lemma dec_str_enc_str: "dec_str (enc_str s @ r) = Some (s, r)"
  by (simp add: dec_str_def enc_str_def dec_nat_enc_nat)

lemma dec_items_enc:
  "(\<And>v n r. v \<in> set vs \<Longrightarrow> fuel v < n \<Longrightarrow> dec_val n (enc_val v @ r) = Some (json_form v, r)) \<Longrightarrow>
   sum_list (map (\<lambda>v. Suc (fuel v)) vs) < n \<Longrightarrow>
   dec_items n (concat (map (\<lambda>v. '','' @ enc_val v) vs) @ '']'' @ r) = Some (map json_form vs, r)"
proof (induction vs arbitrary: n)
  case Nil
  then obtain n' where "n = Suc n'" by (cases n) auto
  then show ?case by simp
next
  case (Cons v vs)
  from Cons.prems(2) obtain n' where n: "n = Suc n'" by (cases n) auto
  with Cons.prems(2) have fv: "fuel v < n'" and rest: "sum_list (map (\<lambda>v. Suc (fuel v)) vs) < n'"
    by simp_all
  have hd: "dec_val n' (enc_val v @ r') = Some (json_form v, r')" for r'
    using Cons.prems(1) [of v n' r'] fv by simp
  have tl: "dec_items n' (concat (map (\<lambda>v. '','' @ enc_val v) vs) @ '']'' @ r)
      = Some (map json_form vs, r)"
    using Cons.IH [of n'] Cons.prems(1) rest by simp
  show ?case using hd tl by (simp add: n)
qed

lemma dec_pairs_enc:
  "(\<And>k v n r. (k, v) \<in> set kvs \<Longrightarrow> fuel v < n \<Longrightarrow>
      dec_val n (enc_val v @ r) = Some (json_form v, r)) \<Longrightarrow>
   sum_list (map (\<lambda>kv. Suc (fuel (snd kv))) kvs) < n \<Longrightarrow>
   dec_pairs n
     (concat (map (\<lambda>kv. '','' @ enc_str (key_str (fst kv)) @ enc_val (snd kv)) kvs) @ ''}'' @ r)
     = Some (map (\<lambda>kv. (KStr (key_str (fst kv)), json_form (snd kv))) kvs, r)"
proof (induction kvs arbitrary: n)
  case Nil
  then obtain n' where "n = Suc n'" by (cases n) auto
  then show ?case by simp
next
  case (Cons kv kvs)
  obtain k v where kv: "kv = (k, v)" by (cases kv)
  from Cons.prems(2) obtain n' where n: "n = Suc n'" by (cases n) auto
  with Cons.prems(2) kv have fv: "fuel v < n'"
    and rest: "sum_list (map (\<lambda>kv. Suc (fuel (snd kv))) kvs) < n'"
    by simp_all
  have hd: "dec_val n' (enc_val v @ r') = Some (json_form v, r')" for r'
    using Cons.prems(1) [of k v n' r'] fv kv by simp
  have tl: "dec_pairs n'
      (concat (map (\<lambda>kv. '','' @ enc_str (key_str (fst kv)) @ enc_val (snd kv)) kvs) @ ''}'' @ r)
      = Some (map (\<lambda>kv. (KStr (key_str (fst kv)), json_form (snd kv))) kvs, r)"
  proof (rule Cons.IH)
    show "dec_val m (enc_val v' @ r') = Some (json_form v', r')"
      if "(k', v') \<in> set kvs" "fuel v' < m" for k' v' m r'
      using Cons.prems(1) [of k' v' m r'] that by simp
    show "sum_list (map (\<lambda>kv. Suc (fuel (snd kv))) kvs) < n'" by (rule rest)
  qed
  show ?case using hd tl by (simp add: n kv dec_str_enc_str)
qed

lemma dec_val_enc_val: "fuel v < n \<Longrightarrow> dec_val n (enc_val v @ r) = Some (json_form v, r)"
proof (induction v arbitrary: n r)
  case PNone
  then show ?case by (cases n) auto
next
  case (PBool b)
  then show ?case by (cases n) auto
next
  case (PInt i)
  then show ?case by (cases n) (auto simp: dec_nat_enc_nat)
next
  case (PStr s)
  then show ?case by (cases n) (auto simp: dec_str_enc_str)
next
  case (PFloat s)
  then show ?case by (cases n) (auto simp: dec_str_enc_str)
next
  case (PList vs)
  from PList.prems obtain n' where n: "n = Suc n'" by (cases n) auto
  with PList.prems have "sum_list (map (\<lambda>v. Suc (fuel v)) vs) < n'" by simp
  then have "dec_items n' (concat (map (\<lambda>v. '','' @ enc_val v) vs) @ '']'' @ r)
      = Some (map json_form vs, r)"
    using PList.IH by (intro dec_items_enc) auto
  then show ?case by (simp add: n)
next
  case (PTuple vs)
  from PTuple.prems obtain n' where n: "n = Suc n'" by (cases n) auto
  with PTuple.prems have "sum_list (map (\<lambda>v. Suc (fuel v)) vs) < n'" by simp
  then have "dec_items n' (concat (map (\<lambda>v. '','' @ enc_val v) vs) @ '']'' @ r)
      = Some (map json_form vs, r)"
    using PTuple.IH by (intro dec_items_enc) auto
  then show ?case by (simp add: n)
next
  case (PDict kvs)
  from PDict.prems obtain n' where n: "n = Suc n'" by (cases n) auto
  with PDict.prems have rest: "sum_list (map (\<lambda>kv. Suc (fuel (snd kv))) kvs) < n'" by simp
  have "dec_pairs n'
      (concat (map (\<lambda>kv. '','' @ enc_str (key_str (fst kv)) @ enc_val (snd kv)) kvs) @ ''}'' @ r)
      = Some (map (\<lambda>kv. (KStr (key_str (fst kv)), json_form (snd kv))) kvs, r)"
  proof (rule dec_pairs_enc)
    show "dec_val m (enc_val v' @ r') = Some (json_form v', r')"
      if "(k', v') \<in> set kvs" "fuel v' < m" for k' v' m r'
      using PDict.IH [of "(k', v')" v' m r'] that by simp
    show "sum_list (map (\<lambda>kv. Suc (fuel (snd kv))) kvs) < n'" by (rule rest)
  qed
  then show ?case by (simp add: n)
qed

lemma fuel_le_length: "fuel v \<le> length (enc_val v)"
proof (induction v)
  case (PList vs)
  then have "sum_list (map (\<lambda>v. Suc (fuel v)) vs) \<le> length (concat (map (\<lambda>v. '','' @ enc_val v) vs))"
    by (induction vs) (auto simp: add_mono)
  then show ?case by simp
next
  case (PTuple vs)
  then have "sum_list (map (\<lambda>v. Suc (fuel v)) vs) \<le> length (concat (map (\<lambda>v. '','' @ enc_val v) vs))"
    by (induction vs) (auto simp: add_mono)
  then show ?case by simp
next
  case (PDict kvs)
  then have "sum_list (map (\<lambda>kv. Suc (fuel (snd kv))) kvs)
      \<le> length (concat (map (\<lambda>kv. '','' @ enc_str (key_str (fst kv)) @ enc_val (snd kv)) kvs))"
  proof (induction kvs)
    case Nil
    then show ?case by simp
  next
    case (Cons kv kvs)
    have "fuel (snd kv) \<le> length (enc_val (snd kv))"
      using Cons.prems [of kv "snd kv"] by (cases kv) auto
    moreover have "sum_list (map (\<lambda>kv. Suc (fuel (snd kv))) kvs)
      \<le> length (concat (map (\<lambda>kv. '','' @ enc_str (key_str (fst kv)) @ enc_val (snd kv)) kvs))"
      using Cons by auto
    ultimately show ?case by simp
  qed
  then show ?case by simp
qed auto

lemma ref_loads_enc_val: "ref_loads (enc_val v) = Inr (json_form v)"
  using dec_val_enc_val [of v "Suc (length (enc_val v))" "[]"] fuel_le_length [of v]
  by (simp add: ref_loads_def)

lemma ref_loads_native: "json_native v \<Longrightarrow> ref_loads (enc_val v) = Inr v"
  by (simp add: ref_loads_enc_val json_form_native)

lemma ref_decrypt_encrypt: "ref_decrypt k (ref_encrypt k n d) = Inr d"
  by (simp add: ref_decrypt_def ref_encrypt_def dec_str_enc_str)


lemma ref_lib_simps:
  "json_dumps ref_lib = enc_val"
  "json_loads ref_lib = ref_loads"
  "pbkdf2 ref_lib = (\<lambda>salt password. enc_str salt @ password)"
  "fernet_encrypt ref_lib = ref_encrypt"
  "fernet_decrypt ref_lib = ref_decrypt"
  by (simp_all add: ref_lib_def)

section \<open>Evaluation on the concrete states\<close>

lemmas method_defs =
  MemoryManager_set_def MemoryManager_get_def MemoryManager_delete_def MemoryManager_clear_def
  MemoryManager_lock_def MemoryManager_unlock_def MemoryManager_save_def MemoryManager_load_def
  Storage_set_password_def Storage_load_salt_def Storage_unlock_def Storage_encrypt_def
  Storage_decrypt_def read_value_def read_state_def read_failure_def open_read_def os_remove_def
  remove_quietly_def MemoryManager_init_def Let_def

declare enc_val.simps [simp del]

lemma w_ready_eq:
  "w_ready = \<lparr>fernet = Some (enc_str ''salt'' @ ''correct horse''), memory = [], locked = False,
     disk = [''.salt'' \<mapsto> ''salt'']\<rparr>"
  by (simp add: w_ready_def w_fresh_def method_defs ref_lib_simps str_encode_py)

lemma w_one_eq:
  "w_one = \<lparr>fernet = Some (enc_str ''salt'' @ ''correct horse''), memory = [(''a'', ''00.dat'')],
     locked = False,
     disk = [''.salt'' \<mapsto> ''salt'',
             ''00.dat'' \<mapsto> ref_encrypt (enc_str ''salt'' @ ''correct horse'') ''iv0'' (enc_val (PInt 42))]\<rparr>"
  by (simp add: w_one_def w_ready_eq method_defs ref_lib_simps)

lemma as_memory_state: "as_memory (PDict (map (\<lambda>(k, f). (KStr k, PStr f)) m)) = Some m"
  by (induction m) (auto simp: list_all_iff split: if_splits)

lemma read_state_snapshot:
  "disk w p = Some (json_dumps L (state_obj m l)) \<Longrightarrow>
   json_loads L (json_dumps L (state_obj m l)) = Inr (state_obj m l) \<Longrightarrow>
   read_state L p w = Some (Inr (m, l))"
  by (simp add: read_state_def open_read_def state_obj_def dict_get_def as_memory_state
      del: as_memory.simps)

lemma w_stale_eq:
  "w_stale = \<lparr>fernet = Some (enc_str ''salt'' @ ''correct horse''), memory = [(''a'', ''00.dat'')],
     locked = False,
     disk = [''.salt'' \<mapsto> ''salt'',
             ''s.state'' \<mapsto> enc_val (state_obj [(''a'', ''00.dat'')] False)]\<rparr>"
  by (simp add: w_stale_def w_one_eq method_defs ref_lib_simps ref_loads_enc_val
      json_form_state_obj state_obj_def dict_get_def fun_upd_twist)


lemma state_not_dat: "name @ ''.state'' \<noteq> tok @ ''.dat''"
proof
  assume "name @ ''.state'' = tok @ ''.dat''"
  then have "rev (name @ ''.state'') = rev (tok @ ''.dat'')" by simp
  then show False by simp
qed

lemma state_not_salt: "name @ ''.state'' \<noteq> ''.salt''"
proof
  assume "name @ ''.state'' = ''.salt''"
  then have "rev (name @ ''.state'') = rev ''.salt''" by simp
  then show False by simp
qed

lemma w_again_eq:
  "w_again = \<lparr>fernet = Some (enc_str ''salt'' @ ''correct horse''), memory = [(''a'', ''01.dat'')],
     locked = False,
     disk = [''.salt'' \<mapsto> ''salt'',
             ''00.dat'' \<mapsto> ref_encrypt (enc_str ''salt'' @ ''correct horse'') ''iv0'' (enc_val (PInt 42)),
             ''01.dat'' \<mapsto> ref_encrypt (enc_str ''salt'' @ ''correct horse'') ''iv1'' (enc_val (PInt 7))]\<rparr>"
  by (simp add: w_again_def w_one_eq method_defs ref_lib_simps)

lemma w_wrong_eq:
  "w_wrong = \<lparr>fernet = Some (enc_str ''salt'' @ ''Tr0ub4dor''), memory = [(''a'', ''00.dat'')],
     locked = False,
     disk = [''.salt'' \<mapsto> ''salt'',
             ''00.dat'' \<mapsto> ref_encrypt (enc_str ''salt'' @ ''correct horse'') ''iv0'' (enc_val (PInt 42))]\<rparr>"
  by (simp add: w_wrong_def w_one_eq method_defs ref_lib_simps str_encode_py)

lemma w_locked_eq:
  "w_locked = \<lparr>fernet = Some (enc_str ''salt'' @ ''correct horse''), memory = [(''a'', ''00.dat'')],
     locked = True,
     disk = [''.salt'' \<mapsto> ''salt'',
             ''00.dat'' \<mapsto> ref_encrypt (enc_str ''salt'' @ ''correct horse'') ''iv0'' (enc_val (PInt 42))]\<rparr>"
  by (simp add: w_locked_def w_one_eq method_defs)

lemma dir_example_eq:
  "dir_example = [''.salt'' \<mapsto> ''salt'',
                  ''s.state'' \<mapsto> enc_val (state_obj [(''a'', ''00.dat'')] False)]"
  by (simp add: dir_example_def w_stale_eq)

lemma run_ops_example_prefix:
  "map_option memory (run ref_lib [OpLoad ''s'', OpSet ''b'' (PStr ''x'') ''01'' ''iv1'']
     (MemoryManager_init (Some (enc_str ''salt'' @ ''correct horse'')) dir_example))
   = Some [(''a'', ''00.dat''), (''b'', ''01.dat'')]"
  by (simp add: dir_example_eq method_defs ref_lib_simps ref_loads_enc_val json_form_state_obj
      state_obj_def dict_get_def)

lemma run_ops_example:
  "map_option memory (run ref_lib ops_example
     (MemoryManager_init (Some (enc_str ''salt'' @ ''correct horse'')) dir_example))
   = Some [(''a'', ''00.dat''), (''b'', ''01.dat''), (''c'', ''02.dat'')]"
  by (simp add: ops_example_def dir_example_eq method_defs ref_lib_simps ref_loads_enc_val
      json_form_state_obj state_obj_def dict_get_def AList.delete_eq fun_upd_twist)

section \<open>Every call keeps the invariant\<close>

lemma blob_names_mono: "U \<subseteq> V \<Longrightarrow> blob_names U \<subseteq> blob_names V"
  by (auto simp: blob_names_def)

lemma blob_names_fresh: "tok \<notin> U \<Longrightarrow> tok @ ''.dat'' \<notin> blob_names U"
  by (auto simp: blob_names_def)

lemma good_memory_mono: "good_memory U m \<Longrightarrow> U \<subseteq> V \<Longrightarrow> good_memory V m"
  using blob_names_mono [of U V] by (auto simp: good_memory_def)

lemma saved_snapshots_mono: "saved_snapshots L U d \<Longrightarrow> U \<subseteq> V \<Longrightarrow> saved_snapshots L V d"
  unfolding saved_snapshots_def by (meson good_memory_mono)

lemma index_inv_mono: "index_inv L U w \<Longrightarrow> U \<subseteq> V \<Longrightarrow> index_inv L V w"
  unfolding index_inv_def by (meson good_memory_mono saved_snapshots_mono)

lemma saved_snapshots_subdir:
  "saved_snapshots L U d \<Longrightarrow> (\<And>p c. d' p = Some c \<Longrightarrow> d p = Some c) \<Longrightarrow> saved_snapshots L U d'"
  unfolding saved_snapshots_def by blast

lemma set_update_subset: "snd ` set (AList.update k f m) \<subseteq> insert f (snd ` set m)"
  by (induction m) auto

lemma distinct_snd_update:
  "distinct (map snd m) \<Longrightarrow> f \<notin> snd ` set m \<Longrightarrow> distinct (map snd (AList.update k f m))"
proof (induction m)
  case Nil
  then show ?case by simp
next
  case (Cons p m)
  have "snd p \<notin> snd ` set (AList.update k f m)"
    using Cons.prems set_update_subset [of k f m] by auto
  with Cons show ?case by auto
qed

lemma distinct_snd_delete: "distinct (map snd m) \<Longrightarrow> distinct (map snd (AList.delete k m))"
  by (simp add: AList.delete_eq distinct_map_filter)

lemma good_memory_update:
  "good_memory U m \<Longrightarrow> tok \<notin> U \<Longrightarrow> good_memory (insert tok U) (AList.update k (tok @ ''.dat'') m)"
  unfolding good_memory_def
proof (intro conjI)
  assume a: "distinct (map fst m) \<and> distinct (map snd m) \<and> snd ` set m \<subseteq> blob_names U"
    and b: "tok \<notin> U"
  show "distinct (map fst (AList.update k (tok @ ''.dat'') m))"
    using a by (simp add: AList.distinct_update)
  have "tok @ ''.dat'' \<notin> snd ` set m" using a blob_names_fresh [OF b] by auto
  then show "distinct (map snd (AList.update k (tok @ ''.dat'') m))"
    using a by (simp add: distinct_snd_update)
  show "snd ` set (AList.update k (tok @ ''.dat'') m) \<subseteq> blob_names (insert tok U)"
    using a set_update_subset [of k "tok @ ''.dat''" m] by (auto simp: blob_names_def)
qed

lemma good_memory_delete: "good_memory U m \<Longrightarrow> good_memory U (AList.delete k m)"
proof -
  assume g: "good_memory U m"
  have "set (AList.delete k m) \<subseteq> set m" by (auto simp: AList.delete_eq)
  then have "snd ` set (AList.delete k m) \<subseteq> snd ` set m" by (rule image_mono)
  with g show ?thesis
    by (auto simp: good_memory_def AList.distinct_delete distinct_snd_delete)
qed

lemma good_memory_Nil: "good_memory U []"
  by (simp add: good_memory_def)

lemma fold_remove_quietly_disk:
  "disk (fold remove_quietly fs w) p = Some c \<Longrightarrow> disk w p = Some c"
proof (induction fs arbitrary: w)
  case Nil
  then show ?case by simp
next
  case (Cons a fs)
  then have "disk (remove_quietly a w) p = Some c" by simp
  then show ?case
    by (auto simp: remove_quietly_def os_remove_def split: option.splits if_splits)
qed

lemma exec_inv:
  assumes inv: "index_inv L U w"
    and rt: "\<forall>m l. distinct (map fst m) \<longrightarrow>
      json_loads L (json_dumps L (state_obj m l)) = Inr (state_obj m l)"
    and fresh: "set (op_tokens x) \<inter> U = {}"
  shows "\<exists>w'. exec L x w = Some w' \<and> index_inv L (U \<union> set (op_tokens x)) w'"
proof (cases x)
  case (OpSet key val tok nonce)
  show ?thesis
  proof (cases "locked w \<or> fernet w = None")
    case True
    then have "exec L x w = Some w"
      by (auto simp: OpSet MemoryManager_set_def Storage_encrypt_def)
    with inv show ?thesis by (auto intro: index_inv_mono)
  next
    case False
    then obtain k where k: "fernet w = Some k" and ul: "\<not> locked w" by auto
    have tok: "tok \<notin> U" using fresh OpSet by simp
    have e: "exec L x w =
        Some (w\<lparr>disk := (disk w)(tok @ ''.dat'' \<mapsto> fernet_encrypt L k nonce (json_dumps L val)),
          memory := AList.update key (tok @ ''.dat'') (memory w)\<rparr>)"
      using k ul by (simp add: OpSet MemoryManager_set_def Storage_encrypt_def Let_def)
    have "good_memory (insert tok U) (AList.update key (tok @ ''.dat'') (memory w))"
      using inv tok by (simp add: index_inv_def good_memory_update)
    moreover have "saved_snapshots L (insert tok U)
        ((disk w)(tok @ ''.dat'' \<mapsto> fernet_encrypt L k nonce (json_dumps L val)))"
      unfolding saved_snapshots_def
    proof (intro allI impI)
      fix name c
      assume "((disk w)(tok @ ''.dat'' \<mapsto> fernet_encrypt L k nonce (json_dumps L val)))
          (name @ ''.state'') = Some c"
      then have "disk w (name @ ''.state'') = Some c" by (simp add: state_not_dat)
      then obtain m where "c = json_dumps L (state_obj m False)" and "good_memory U m"
        using inv unfolding index_inv_def saved_snapshots_def by blast
      then show "\<exists>m. c = json_dumps L (state_obj m False) \<and> good_memory (insert tok U) m"
        using good_memory_mono [of U m "insert tok U"] by blast
    qed
    ultimately show ?thesis
      unfolding e by (simp add: OpSet index_inv_def)
  qed
next
  case (OpGet key dflt)
  have "exec L x w = Some w"
    by (simp add: OpGet MemoryManager_get_def split: option.splits sum.splits)
  with inv show ?thesis by (simp add: OpGet)
next
  case (OpDelete key)
  obtain w' where w': "exec L x w = Some w'" by (simp add: OpDelete)
  have m: "memory w' = memory w \<or> memory w' = AList.delete key (memory w)"
    using w' by (auto simp: OpDelete MemoryManager_delete_def os_remove_def Let_def split: option.splits)
  have d: "disk w p = Some c" if "disk w' p = Some c" for p c
    using that w'
    by (auto simp: OpDelete MemoryManager_delete_def os_remove_def Let_def
        split: option.splits if_splits)
  have "good_memory U (memory w')"
    using m inv good_memory_delete [of U "memory w" key] by (auto simp: index_inv_def)
  moreover have "saved_snapshots L U (disk w')"
  proof (rule saved_snapshots_subdir)
    show "saved_snapshots L U (disk w)" using inv by (simp add: index_inv_def)
    show "disk w p = Some c" if "disk w' p = Some c" for p c using that by (rule d)
  qed
  ultimately show ?thesis
    using w' by (simp add: OpDelete index_inv_def)
next
  case OpClear
  show ?thesis
  proof (cases "locked w")
    case True
    then have "exec L x w = Some w" by (simp add: OpClear MemoryManager_clear_def)
    with inv show ?thesis by (simp add: OpClear)
  next
    case False
    then have e: "exec L x w = Some ((fold remove_quietly (map snd (memory w)) w)\<lparr>memory := []\<rparr>)"
      by (simp add: OpClear MemoryManager_clear_def Let_def)
    have "saved_snapshots L U (disk (fold remove_quietly (map snd (memory w)) w))"
    proof (rule saved_snapshots_subdir)
      show "saved_snapshots L U (disk w)" using inv by (simp add: index_inv_def)
      show "disk w p = Some c"
        if "disk (fold remove_quietly (map snd (memory w)) w) p = Some c" for p c
        using that by (rule fold_remove_quietly_disk)
    qed
    then show ?thesis
      unfolding e index_inv_def by (simp add: OpClear good_memory_Nil)
  qed
next
  case OpLock
  with inv show ?thesis by (simp add: MemoryManager_lock_def index_inv_def)
next
  case OpUnlock
  with inv show ?thesis by (simp add: MemoryManager_unlock_def index_inv_def)
next
  case (OpSave name)
  show ?thesis
  proof (cases "locked w")
    case True
    then have "exec L x w = Some w" by (simp add: OpSave MemoryManager_save_def)
    with inv show ?thesis by (simp add: OpSave)
  next
    case False
    then have e: "exec L x w
        = Some (w\<lparr>disk := (disk w)(name @ ''.state'' \<mapsto>
            json_dumps L (state_obj (memory w) False))\<rparr>)"
      by (simp add: OpSave MemoryManager_save_def Let_def)
    show ?thesis
      using inv unfolding e index_inv_def saved_snapshots_def by (auto simp: OpSave)
  qed
next
  case (OpLoad name)
  show ?thesis
  proof (cases "locked w \<or> disk w (name @ ''.state'') = None")
    case True
    then have "exec L x w = Some w"
      by (auto simp: OpLoad MemoryManager_load_def read_state_def open_read_def)
    with inv show ?thesis by (simp only: op_tokens.simps OpLoad) simp
  next
    case False
    then obtain c where c: "disk w (name @ ''.state'') = Some c" and ul: "\<not> locked w" by auto
    from inv c obtain m where m: "c = json_dumps L (state_obj m False)" and g: "good_memory U m"
      unfolding index_inv_def saved_snapshots_def by blast
    have "read_state L (name @ ''.state'') w = Some (Inr (m, False))"
      using c m rt g by (intro read_state_snapshot) (auto simp: good_memory_def)
    then have e: "exec L x w = Some (w\<lparr>memory := m, locked := False\<rparr>)"
      using ul by (simp add: OpLoad MemoryManager_load_def)
    show ?thesis
      using inv g unfolding e index_inv_def by (simp add: OpLoad)
  qed
qed

lemma run_inv:
  assumes rt: "\<forall>m l. distinct (map fst m) \<longrightarrow>
      json_loads L (json_dumps L (state_obj m l)) = Inr (state_obj m l)"
  shows "index_inv L U w \<Longrightarrow> distinct (tokens ops) \<Longrightarrow> set (tokens ops) \<inter> U = {} \<Longrightarrow>
         \<exists>w'. run L ops w = Some w' \<and> index_inv L (U \<union> set (tokens ops)) w'"
proof (induction ops arbitrary: U w)
  case Nil
  then show ?case by (simp add: tokens_def)
next
  case (Cons x ops)
  have "\<exists>w1. exec L x w = Some w1 \<and> index_inv L (U \<union> set (op_tokens x)) w1"
    using Cons.prems by (intro exec_inv rt) (auto simp: tokens_def)
  then obtain w1 where e: "exec L x w = Some w1" and 1: "index_inv L (U \<union> set (op_tokens x)) w1"
    by blast
  have "\<exists>w'. run L ops w1 = Some w' \<and> index_inv L ((U \<union> set (op_tokens x)) \<union> set (tokens ops)) w'"
    using Cons.prems by (intro Cons.IH 1) (auto simp: tokens_def)
  moreover have "U \<union> set (tokens (x # ops)) = (U \<union> set (op_tokens x)) \<union> set (tokens ops)"
    by (auto simp: tokens_def)
  ultimately show ?case using e by simp
qed

lemma init_inv: "saved_snapshots L U d \<Longrightarrow> index_inv L U (MemoryManager_init k d)"
  by (simp add: index_inv_def MemoryManager_init_def good_memory_Nil)

lemma tokens_append: "tokens (pre @ post) = tokens pre @ tokens post"
  by (simp add: tokens_def)

lemma good_memory_injective:
  "good_memory U m \<Longrightarrow> map_of m k1 = Some f \<Longrightarrow> map_of m k2 = Some f \<Longrightarrow> k1 = k2"
proof -
  assume g: "good_memory U m" and 1: "map_of m k1 = Some f" and 2: "map_of m k2 = Some f"
  then have "(k1, f) \<in> set m" "(k2, f) \<in> set m" by (auto dest: map_of_SomeD)
  moreover have "inj_on snd (set m)" using g by (simp add: good_memory_def distinct_map)
  ultimately have "(k1, f) = (k2, f)" by (intro inj_onD [of snd "set m"]) auto
  then show ?thesis by simp
qed

section \<open>Properties\<close>

text \<open>
  C1. The claim: on a locked index \<^verbatim>\<open>set\<close>, \<^verbatim>\<open>delete\<close>, \<^verbatim>\<open>clear\<close>, \<^verbatim>\<open>save\<close> and
  \<^verbatim>\<open>load\<close> raise the lock error and change nothing. \<^verbatim>\<open>delete\<close> has no test of
  \<^verbatim>\<open>self._locked\<close>: on the locked index \<open>w_locked\<close>, reached by \<^verbatim>\<open>set_password\<close>,
  \<^verbatim>\<open>set("a", 42)\<close> and \<^verbatim>\<open>lock()\<close>, the call \<^verbatim>\<open>delete("a")\<close> returns \<^verbatim>\<open>True\<close>, and
  the entry and the blob file are gone.
\<close>

theorem delete_on_locked_index:
  "locked w_locked \<and>
   map_of (memory w_locked) ''a'' = Some ''00.dat'' \<and>
   MemoryManager_delete ''a'' w_locked
     = (Inr True, w_locked\<lparr>memory := [], disk := [''.salt'' \<mapsto> ''salt'']\<rparr>) \<and>
   MemoryManager_delete ''a'' w_locked \<noteq> (Inl (RuntimeError ''Memory is locked''), w_locked)"
  by (simp add: w_locked_eq MemoryManager_delete_def os_remove_def AList.delete_eq fun_upd_twist)

text \<open>
  X1, beside C1: the other methods do what C1 says. On a locked index \<^verbatim>\<open>set\<close>, \<^verbatim>\<open>clear\<close>, \<^verbatim>\<open>save\<close>
  and \<^verbatim>\<open>load\<close> raise \<^verbatim>\<open>RuntimeError("Memory is locked")\<close> and leave the state as it
  was; \<^verbatim>\<open>get\<close> changes nothing and returns what it returns on the unlocked index;
  \<^verbatim>\<open>unlock()\<close> clears the flag and \<^verbatim>\<open>lock()\<close> sets it.
\<close>

theorem locked_index_refuses_mutation:
  assumes "locked w"
  shows "MemoryManager_set L tok nonce key val w = (Inl (RuntimeError ''Memory is locked''), w) \<and>
         MemoryManager_clear w = (Inl (RuntimeError ''Memory is locked''), w) \<and>
         MemoryManager_save L name w = (Inl (RuntimeError ''Memory is locked''), w) \<and>
         MemoryManager_load L name w = Some (Inl (RuntimeError ''Memory is locked''), w) \<and>
         snd (MemoryManager_get L key' dflt w) = w \<and>
         fst (MemoryManager_get L key' dflt w)
           = fst (MemoryManager_get L key' dflt (w\<lparr>locked := False\<rparr>)) \<and>
         MemoryManager_unlock w = (Inr (), w\<lparr>locked := False\<rparr>) \<and>
         MemoryManager_lock (w\<lparr>locked := False\<rparr>) = (Inr (), w)"
  using assms
  by (auto simp: MemoryManager_set_def MemoryManager_clear_def MemoryManager_save_def
      MemoryManager_load_def MemoryManager_get_def MemoryManager_unlock_def MemoryManager_lock_def
      read_value_def open_read_def Storage_decrypt_def
      split: option.splits sum.splits)

theorem locked_index_refuses_mutation_witness:
  "locked w_locked \<and>
   MemoryManager_set ref_lib ''01'' ''iv1'' ''b'' (PInt 7) w_locked
     = (Inl (RuntimeError ''Memory is locked''), w_locked) \<and>
   MemoryManager_clear w_locked = (Inl (RuntimeError ''Memory is locked''), w_locked) \<and>
   MemoryManager_save ref_lib ''s'' w_locked = (Inl (RuntimeError ''Memory is locked''), w_locked) \<and>
   MemoryManager_load ref_lib ''s'' w_locked
     = Some (Inl (RuntimeError ''Memory is locked''), w_locked) \<and>
   MemoryManager_get ref_lib ''a'' PNone w_locked = (Inr (PInt 42), w_locked) \<and>
   MemoryManager_unlock w_locked = (Inr (), w_one) \<and>
   MemoryManager_lock w_one = (Inr (), w_locked)"
proof -
  have h: "locked w_locked" by (simp add: w_locked_eq)
  have g: "MemoryManager_get ref_lib ''a'' PNone w_locked = (Inr (PInt 42), w_locked)"
    by (simp add: w_locked_eq MemoryManager_get_def read_value_def open_read_def Storage_decrypt_def
        ref_lib_simps ref_decrypt_encrypt ref_loads_enc_val)
  have u: "w_locked\<lparr>locked := False\<rparr> = w_one" by (simp add: w_locked_eq w_one_eq)
  show ?thesis
    using locked_index_refuses_mutation [OF h, of ref_lib "''01''" "''iv1''" "''b''" "PInt 7" "''s''" "''a''" PNone]
      h g u
    by simp
qed

text \<open>
  C2, as amended. For a key that has a blob \<open>old\<close>, a successful \<^verbatim>\<open>set(key, value)\<close> whose
  token names no file of the directory and not the old blob writes the new token of the
  value to \<open>tok.dat\<close> and maps the key to it. It changes no other file: the old blob stays
  on disk with its content, neither deleted nor edited.
\<close>

theorem set_existing_key_keeps_old_blob:
  assumes "map_of (memory w) key = Some old"
    and "MemoryManager_set L tok nonce key val w = (Inr (), w')"
    and "disk w (tok @ ''.dat'') = None"
    and "tok @ ''.dat'' \<noteq> old"
  shows "(\<exists>k. fernet w = Some k \<and>
            disk w' = (disk w)(tok @ ''.dat'' \<mapsto> fernet_encrypt L k nonce (json_dumps L val))) \<and>
         disk w' old = disk w old \<and>
         map_of (memory w') = (map_of (memory w))(key \<mapsto> tok @ ''.dat'')"
  using assms
  by (auto simp: MemoryManager_set_def Storage_encrypt_def Let_def AList.update_conv'
      split: if_splits option.splits)

theorem set_existing_key_keeps_old_blob_witness:
  "map_of (memory w_one) ''a'' = Some ''00.dat'' \<and>
   MemoryManager_set ref_lib ''01'' ''iv1'' ''a'' (PInt 7) w_one = (Inr (), w_again) \<and>
   disk w_one (''01'' @ ''.dat'') = None \<and>
   ''01'' @ ''.dat'' \<noteq> ''00.dat'' \<and>
   disk w_again = (disk w_one)(''01.dat'' \<mapsto>
     ref_encrypt (enc_str ''salt'' @ ''correct horse'') ''iv1'' (enc_val (PInt 7))) \<and>
   disk w_again ''00.dat'' = disk w_one ''00.dat'' \<and>
   map_of (memory w_again) = (map_of (memory w_one))(''a'' \<mapsto> ''01.dat'')"
proof -
  have h1: "map_of (memory w_one) ''a'' = Some ''00.dat''" by (simp add: w_one_eq)
  have h2: "MemoryManager_set ref_lib ''01'' ''iv1'' ''a'' (PInt 7) w_one = (Inr (), w_again)"
    by (simp add: w_again_eq w_one_eq MemoryManager_set_def Storage_encrypt_def ref_lib_simps Let_def)
  have h3: "disk w_one (''01'' @ ''.dat'') = None" by (simp add: w_one_eq)
  have h4: "''01'' @ ''.dat'' \<noteq> ''00.dat''" by simp
  show ?thesis
    using set_existing_key_keeps_old_blob [OF h1 h2 h3 h4] h1 h2 h3 h4
    by (simp add: w_one_eq ref_lib_simps)
qed

text \<open>
  C2 as stated fails: the claim has the old blob file deleted. After \<^verbatim>\<open>set("a", 42)\<close>
  and \<^verbatim>\<open>set("a", 7)\<close> the first blob \<open>00.dat\<close> is still in the directory, unchanged.
\<close>

theorem set_existing_key_removes_old_blob_counterexample:
  "map_of (memory w_one) ''a'' = Some ''00.dat'' \<and>
   MemoryManager_set ref_lib ''01'' ''iv1'' ''a'' (PInt 7) w_one = (Inr (), w_again) \<and>
   disk w_again ''00.dat''
     = Some (ref_encrypt (enc_str ''salt'' @ ''correct horse'') ''iv0'' (enc_val (PInt 42))) \<and>
   disk w_again ''00.dat'' = disk w_one ''00.dat''"
  by (simp add: w_again_eq w_one_eq MemoryManager_set_def Storage_encrypt_def ref_lib_simps Let_def)




text \<open>
  C4, as amended. With the index unlocked, a key \<open>k\<close> in the vault and a token that Fernet
  decrypts under the key it was made with, \<^verbatim>\<open>set(key, v)\<close> succeeds and the
  \<^verbatim>\<open>get(key)\<close> that follows returns what \<^verbatim>\<open>json.loads\<close> reads from the text that
  \<^verbatim>\<open>json.dumps\<close> wrote for \<open>v\<close>, whatever that is. With a \<^verbatim>\<open>json\<close> that reads back the
  JSON form of \<open>v\<close>, it is \<open>v\<close> itself when \<open>v\<close> has no tuple, no dictionary key that is
  not a string and no \<^verbatim>\<open>nan\<close>.
\<close>

theorem set_then_get_returns_json_reading:
  assumes "\<not> locked w" and "fernet w = Some k"
    and "fernet_decrypt L k (fernet_encrypt L k nonce (json_dumps L v)) = Inr (json_dumps L v)"
  shows "fst (MemoryManager_set L tok nonce key v w) = Inr () \<and>
         (\<forall>r. json_loads L (json_dumps L v) = Inr r \<longrightarrow>
            fst (MemoryManager_get L key dflt (snd (MemoryManager_set L tok nonce key v w))) = Inr r) \<and>
         (json_loads L (json_dumps L v) = Inr (json_form v) \<longrightarrow> json_native v \<longrightarrow>
            fst (MemoryManager_get L key dflt (snd (MemoryManager_set L tok nonce key v w))) = Inr v)"
  using assms
  by (simp add: MemoryManager_set_def Storage_encrypt_def MemoryManager_get_def read_value_def
      open_read_def Storage_decrypt_def AList.update_conv' Let_def json_form_native)

theorem set_then_get_returns_json_reading_witness:
  "\<not> locked w_ready \<and>
   fernet w_ready = Some (enc_str ''salt'' @ ''correct horse'') \<and>
   fernet_decrypt ref_lib (enc_str ''salt'' @ ''correct horse'')
     (fernet_encrypt ref_lib (enc_str ''salt'' @ ''correct horse'') ''iv1''
        (json_dumps ref_lib (PDict [(KStr ''x'', PList [PInt 1, PInt 2, PInt 3])])))
     = Inr (json_dumps ref_lib (PDict [(KStr ''x'', PList [PInt 1, PInt 2, PInt 3])])) \<and>
   json_loads ref_lib (json_dumps ref_lib (PDict [(KStr ''x'', PList [PInt 1, PInt 2, PInt 3])]))
     = Inr (json_form (PDict [(KStr ''x'', PList [PInt 1, PInt 2, PInt 3])])) \<and>
   json_native (PDict [(KStr ''x'', PList [PInt 1, PInt 2, PInt 3])]) \<and>
   fst (MemoryManager_set ref_lib ''0b'' ''iv1'' ''b''
          (PDict [(KStr ''x'', PList [PInt 1, PInt 2, PInt 3])]) w_ready)
     = Inr () \<and>
   fst (MemoryManager_get ref_lib ''b'' PNone
          (snd (MemoryManager_set ref_lib ''0b'' ''iv1'' ''b''
                  (PDict [(KStr ''x'', PList [PInt 1, PInt 2, PInt 3])]) w_ready)))
     = Inr (PDict [(KStr ''x'', PList [PInt 1, PInt 2, PInt 3])])"
proof -
  have h1: "\<not> locked w_ready" by (simp add: w_ready_eq)
  have h2: "fernet w_ready = Some (enc_str ''salt'' @ ''correct horse'')" by (simp add: w_ready_eq)
  have h3: "fernet_decrypt ref_lib (enc_str ''salt'' @ ''correct horse'')
     (fernet_encrypt ref_lib (enc_str ''salt'' @ ''correct horse'') ''iv1''
        (json_dumps ref_lib (PDict [(KStr ''x'', PList [PInt 1, PInt 2, PInt 3])])))
     = Inr (json_dumps ref_lib (PDict [(KStr ''x'', PList [PInt 1, PInt 2, PInt 3])]))"
    by (simp only: ref_lib_simps ref_decrypt_encrypt)
  have h4: "json_loads ref_lib (json_dumps ref_lib (PDict [(KStr ''x'', PList [PInt 1, PInt 2, PInt 3])]))
     = Inr (json_form (PDict [(KStr ''x'', PList [PInt 1, PInt 2, PInt 3])]))"
    by (simp only: ref_lib_simps ref_loads_enc_val)
  have h5: "json_native (PDict [(KStr ''x'', PList [PInt 1, PInt 2, PInt 3])])" by simp
  show ?thesis
    using set_then_get_returns_json_reading [OF h1 h2 h3, of "''0b''" "''b''" PNone] h1 h2 h3 h4 h5
    by blast
qed

text \<open>
  C4 as stated fails: the value that comes back need not be equal to the one that was set.
  \<^verbatim>\<open>set("b", (1, 2))\<close> succeeds and \<^verbatim>\<open>get("b")\<close> returns the list \<^verbatim>\<open>[1, 2]\<close>, which
  is not the tuple; \<^verbatim>\<open>set("c", {1: "x"})\<close> succeeds and \<^verbatim>\<open>get("c")\<close> returns
  \<^verbatim>\<open>{"1": "x"}\<close>, whose key is a string.
\<close>

theorem set_then_get_tuple_counterexample:
  "\<not> locked w_ready \<and>
   fernet w_ready = Some (enc_str ''salt'' @ ''correct horse'') \<and>
   fst (MemoryManager_set ref_lib ''0b'' ''iv1'' ''b'' (PTuple [PInt 1, PInt 2]) w_ready) = Inr () \<and>
   fst (MemoryManager_get ref_lib ''b'' PNone
          (snd (MemoryManager_set ref_lib ''0b'' ''iv1'' ''b'' (PTuple [PInt 1, PInt 2]) w_ready)))
     = Inr (PList [PInt 1, PInt 2]) \<and>
   PList [PInt 1, PInt 2] \<noteq> PTuple [PInt 1, PInt 2] \<and>
   fst (MemoryManager_set ref_lib ''0c'' ''iv2'' ''c'' (PDict [(KInt 1, PStr ''x'')]) w_ready) = Inr () \<and>
   fst (MemoryManager_get ref_lib ''c'' PNone
          (snd (MemoryManager_set ref_lib ''0c'' ''iv2'' ''c'' (PDict [(KInt 1, PStr ''x'')]) w_ready)))
     = Inr (PDict [(KStr ''1'', PStr ''x'')]) \<and>
   PDict [(KStr ''1'', PStr ''x'')] \<noteq> PDict [(KInt 1, PStr ''x'')]"
  by (simp add: w_ready_eq method_defs ref_lib_simps ref_decrypt_encrypt ref_loads_enc_val
      str_int_def digit_char_def)

text \<open>
  C5, as amended. Without a salt file \<^verbatim>\<open>_load_salt\<close> raises
  \<^verbatim>\<open>ValueError("No password set for this storage")\<close>, and \<^verbatim>\<open>Storage.unlock\<close>, which
  catches it, returns \<^verbatim>\<open>False\<close> and leaves the vault as it was. With a salt file
  \<^verbatim>\<open>Storage.unlock\<close> returns \<^verbatim>\<open>True\<close> for every password that encodes, and holds the
  key derived from its bytes: whether the password is the right one is not looked at. For a
  password that does not encode, \<^verbatim>\<open>password.encode()\<close> raises inside the \<^verbatim>\<open>try\<close>, and
  \<^verbatim>\<open>unlock\<close> returns \<^verbatim>\<open>False\<close> and leaves the vault as it was.
\<close>

theorem unlock_reports_salt_presence:
  "(disk w ''.salt'' = None \<longrightarrow>
      Storage_load_salt w = Inl (ValueError ''No password set for this storage'') \<and>
      Storage_unlock L password w = (Inr False, w)) \<and>
   (\<forall>salt. disk w ''.salt'' = Some salt \<longrightarrow>
      (\<forall>pw. str_encode password = Inr pw \<longrightarrow>
         Storage_unlock L password w = (Inr True, w\<lparr>fernet := Some (pbkdf2 L salt pw)\<rparr>)) \<and>
      (\<forall>e. str_encode password = Inl e \<longrightarrow> Storage_unlock L password w = (Inr False, w)))"
  by (simp add: Storage_unlock_def Storage_load_salt_def)

theorem unlock_reports_salt_presence_witness:
  "Storage_load_salt w_fresh = Inl (ValueError ''No password set for this storage'') \<and>
   Storage_unlock ref_lib (py ''correct horse'') w_fresh = (Inr False, w_fresh) \<and>
   Storage_unlock ref_lib (py ''correct horse'') w_one = (Inr True, w_one) \<and>
   Storage_unlock ref_lib (py ''Tr0ub4dor'') w_one = (Inr True, w_wrong) \<and>
   str_encode [55296] = Inl (UnicodeEncodeError ''surrogates not allowed'') \<and>
   Storage_unlock ref_lib [55296] w_one = (Inr False, w_one)"
  using unlock_reports_salt_presence [of w_fresh ref_lib "py ''correct horse''"]
    unlock_reports_salt_presence [of w_one ref_lib "py ''correct horse''"]
    unlock_reports_salt_presence [of w_one ref_lib "py ''Tr0ub4dor''"]
    unlock_reports_salt_presence [of w_one ref_lib "[55296]"]
  by (simp add: w_fresh_def MemoryManager_init_def w_one_eq w_wrong_eq ref_lib_simps str_encode_py)
    (simp add: str_encode_def is_surrogate_def)

text \<open>
  C5 as stated fails, twice. The claim has \<^verbatim>\<open>unlock\<close> fail with the error of the missing
  salt: on a directory without a salt file \<^verbatim>\<open>unlock\<close> raises nothing and returns
  \<^verbatim>\<open>False\<close>. And the claim has \<^verbatim>\<open>unlock\<close> report success for every password once a
  salt file exists: for the password \<^verbatim>\<open>'\ud800'\<close>, which does not encode, it returns
  \<^verbatim>\<open>False\<close> and the vault keeps the key it held.
\<close>

theorem unlock_without_salt_counterexample:
  "disk w_fresh ''.salt'' = None \<and>
   Storage_unlock ref_lib (py ''correct horse'') w_fresh = (Inr False, w_fresh) \<and>
   fst (Storage_unlock ref_lib (py ''correct horse'') w_fresh)
     \<noteq> Inl (ValueError ''No password set for this storage'') \<and>
   disk w_one ''.salt'' = Some ''salt'' \<and>
   Storage_unlock ref_lib [55296] w_one = (Inr False, w_one) \<and>
   fst (Storage_unlock ref_lib [55296] w_one) \<noteq> Inr True"
  by (simp add: w_fresh_def w_one_eq method_defs str_encode_def is_surrogate_def py_def)

text \<open>
  C6. \<^verbatim>\<open>get(key, default)\<close> returns \<open>default\<close> for a key that is not in the dictionary. For
  a key that is, a blob file that is missing, a decryption that raises and a text that
  \<^verbatim>\<open>json.loads\<close> rejects each end in \<^verbatim>\<open>RuntimeError("Failed to read key '<key>': ...")\<close>,
  never in a returned value.
\<close>

theorem get_absent_or_read_failure:
  "(map_of (memory w) key = None \<longrightarrow> MemoryManager_get L key dflt w = (Inr dflt, w)) \<and>
   (\<forall>filename. map_of (memory w) key = Some filename \<longrightarrow>
      (disk w filename = None \<longrightarrow>
         MemoryManager_get L key dflt w
           = (Inl (RuntimeError (''Failed to read key '' @ [CHR 39] @ key @ [CHR 39] @ '': ''
                @ str_exn (FileNotFoundError filename))), w)) \<and>
      (\<forall>encrypted e. disk w filename = Some encrypted \<longrightarrow>
         Storage_decrypt L encrypted w = Inl e \<longrightarrow>
         MemoryManager_get L key dflt w
           = (Inl (RuntimeError (''Failed to read key '' @ [CHR 39] @ key @ [CHR 39] @ '': ''
                @ str_exn e)), w)) \<and>
      (\<forall>encrypted decrypted e. disk w filename = Some encrypted \<longrightarrow>
         Storage_decrypt L encrypted w = Inr decrypted \<longrightarrow>
         json_loads L decrypted = Inl e \<longrightarrow>
         MemoryManager_get L key dflt w
           = (Inl (RuntimeError (''Failed to read key '' @ [CHR 39] @ key @ [CHR 39] @ '': ''
                @ str_exn e)), w)))"
  by (simp add: MemoryManager_get_def read_value_def open_read_def read_failure_def)

theorem get_absent_or_read_failure_witness:
  "MemoryManager_get ref_lib ''b'' (PStr ''gone'') w_one = (Inr (PStr ''gone''), w_one) \<and>
   MemoryManager_get ref_lib ''a'' PNone (w_one\<lparr>disk := Map.empty\<rparr>)
     = (Inl (RuntimeError (''Failed to read key 'a': [Errno 2] No such file or directory: '00.dat'' @ [CHR 39])),
        w_one\<lparr>disk := Map.empty\<rparr>) \<and>
   MemoryManager_get ref_lib ''a'' PNone (w_one\<lparr>fernet := None\<rparr>)
     = (Inl (RuntimeError ''Failed to read key 'a': Storage is locked''), w_one\<lparr>fernet := None\<rparr>) \<and>
   MemoryManager_get ref_lib ''a'' PNone (w_one\<lparr>disk := [''00.dat'' \<mapsto> ref_encrypt (enc_str ''salt'' @ ''correct horse'') ''iv0'' ''?'']\<rparr>)
     = (Inl (RuntimeError ''Failed to read key 'a': Expecting value''),
        w_one\<lparr>disk := [''00.dat'' \<mapsto> ref_encrypt (enc_str ''salt'' @ ''correct horse'') ''iv0'' ''?'']\<rparr>)"
  using get_absent_or_read_failure [of w_one "''b''" ref_lib "PStr ''gone''"]
    get_absent_or_read_failure [of "w_one\<lparr>disk := Map.empty\<rparr>" "''a''" ref_lib PNone]
    get_absent_or_read_failure [of "w_one\<lparr>fernet := None\<rparr>" "''a''" ref_lib PNone]
    get_absent_or_read_failure [of "w_one\<lparr>disk := [''00.dat'' \<mapsto> ref_encrypt (enc_str ''salt'' @ ''correct horse'') ''iv0'' ''?'']\<rparr>" "''a''" ref_lib PNone]
  by (simp add: w_one_eq Storage_decrypt_def ref_lib_simps ref_decrypt_encrypt ref_loads_def)

text \<open>
  C7. \<^verbatim>\<open>delete(key)\<close> returns \<^verbatim>\<open>False\<close> and changes nothing for a key that is not in the
  dictionary. For a key that is, the entry is removed; the result is \<^verbatim>\<open>True\<close> with the blob
  file removed when the file existed, and \<^verbatim>\<open>False\<close> with the entry removed all the same
  when it did not. In both cases \<^verbatim>\<open>get(key, default)\<close> then returns \<open>default\<close>.
\<close>

theorem delete_semantics:
  "(map_of (memory w) key = None \<longrightarrow> MemoryManager_delete key w = (Inr False, w)) \<and>
   (\<forall>filename. map_of (memory w) key = Some filename \<longrightarrow>
      (disk w filename \<noteq> None \<longrightarrow>
         MemoryManager_delete key w
           = (Inr True, w\<lparr>memory := AList.delete key (memory w),
                          disk := (disk w)(filename := None)\<rparr>)) \<and>
      (disk w filename = None \<longrightarrow>
         MemoryManager_delete key w = (Inr False, w\<lparr>memory := AList.delete key (memory w)\<rparr>)) \<and>
      map_of (memory (snd (MemoryManager_delete key w))) key = None \<and>
      MemoryManager_get L key dflt (snd (MemoryManager_delete key w))
        = (Inr dflt, snd (MemoryManager_delete key w)))"
  by (auto simp: MemoryManager_delete_def os_remove_def MemoryManager_get_def AList.delete_conv'
      Let_def split: option.splits)

theorem delete_semantics_witness:
  "MemoryManager_delete ''missing'' w_one = (Inr False, w_one) \<and>
   MemoryManager_delete ''a'' w_one = (Inr True, w_ready) \<and>
   MemoryManager_get ref_lib ''a'' (PStr ''gone'') w_ready = (Inr (PStr ''gone''), w_ready) \<and>
   MemoryManager_delete ''a'' w_stale = (Inr False, w_stale\<lparr>memory := []\<rparr>) \<and>
   MemoryManager_get ref_lib ''a'' (PStr ''gone'') (w_stale\<lparr>memory := []\<rparr>)
     = (Inr (PStr ''gone''), w_stale\<lparr>memory := []\<rparr>)"
  using delete_semantics [of w_one "''missing''" ref_lib "PStr ''gone''"]
    delete_semantics [of w_one "''a''" ref_lib "PStr ''gone''"]
    delete_semantics [of w_stale "''a''" ref_lib "PStr ''gone''"]
  by (simp add: w_one_eq w_ready_eq w_stale_eq AList.delete_eq fun_upd_twist MemoryManager_get_def)

text \<open>
  C8. Take any run of \<^verbatim>\<open>set\<close>, \<^verbatim>\<open>get\<close>, \<^verbatim>\<open>delete\<close>, \<^verbatim>\<open>clear\<close>, \<^verbatim>\<open>lock\<close>,
  \<^verbatim>\<open>unlock\<close>, \<^verbatim>\<open>save\<close> and \<^verbatim>\<open>load\<close> on a new manager. Its directory may hold
  snapshots, each written by \<^verbatim>\<open>save\<close> in an earlier run, \<open>U0\<close> being the tokens drawn
  before (an empty directory, or any directory without snapshots, is the case of no earlier
  run). The tokens that its \<^verbatim>\<open>set\<close>s draw are fresh: pairwise distinct and not in \<open>U0\<close>.
  \<^verbatim>\<open>json\<close> reads a snapshot back as written. Then the run is inside the model, and in the
  state it reaches no two keys are mapped to the same blob file. A file name that the
  dictionary held at any moment of the run, so also one that a later \<^verbatim>\<open>delete\<close>,
  \<^verbatim>\<open>clear\<close>, \<^verbatim>\<open>load\<close> or \<^verbatim>\<open>set\<close> took out of it, is not the file name of any
  \<^verbatim>\<open>set\<close> later in the run. And the directory it leaves holds snapshots written by
  \<^verbatim>\<open>save\<close> only, as the next run needs it.
\<close>

theorem blob_identifiers_unique_and_never_reused:
  assumes rt: "\<forall>m l. distinct (map fst m) \<longrightarrow>
      json_loads L (json_dumps L (state_obj m l)) = Inr (state_obj m l)"
    and snaps: "saved_snapshots L U0 d"
    and fresh: "distinct (tokens ops)"
    and new: "set (tokens ops) \<inter> U0 = {}"
  shows "\<exists>w'. run L ops (MemoryManager_init k d) = Some w' \<and>
           (\<forall>k1 k2 f. map_of (memory w') k1 = Some f \<longrightarrow>
              map_of (memory w') k2 = Some f \<longrightarrow> k1 = k2) \<and>
           (\<forall>pre post w1 f key val tok nonce.
              ops = pre @ post \<longrightarrow>
              run L pre (MemoryManager_init k d) = Some w1 \<longrightarrow>
              f \<in> snd ` set (memory w1) \<longrightarrow>
              OpSet key val tok nonce \<in> set post \<longrightarrow> tok @ ''.dat'' \<noteq> f) \<and>
           saved_snapshots L (U0 \<union> set (tokens ops)) (disk w')"
proof -
  have "\<exists>w'. run L ops (MemoryManager_init k d) = Some w' \<and>
      index_inv L (U0 \<union> set (tokens ops)) w'"
    using fresh new by (intro run_inv rt init_inv snaps) auto
  then obtain w' where r: "run L ops (MemoryManager_init k d) = Some w'"
    and inv: "index_inv L (U0 \<union> set (tokens ops)) w'"
    by blast
  have 1: "k1 = k2" if "map_of (memory w') k1 = Some f" "map_of (memory w') k2 = Some f" for k1 k2 f
    using inv that unfolding index_inv_def by (blast intro: good_memory_injective)
  have 2: "tok @ ''.dat'' \<noteq> f"
    if ops: "ops = pre @ post" and w1: "run L pre (MemoryManager_init k d) = Some w1"
      and f: "f \<in> snd ` set (memory w1)" and s: "OpSet key val tok nonce \<in> set post"
    for pre post w1 f key val tok nonce
  proof -
    have dp: "distinct (tokens pre)" and np: "set (tokens pre) \<inter> U0 = {}"
      using fresh new by (auto simp: ops tokens_append)
    have "\<exists>w. run L pre (MemoryManager_init k d) = Some w \<and> index_inv L (U0 \<union> set (tokens pre)) w"
      using dp np by (intro run_inv rt init_inv snaps) auto
    with w1 have "index_inv L (U0 \<union> set (tokens pre)) w1" by simp
    then have "snd ` set (memory w1) \<subseteq> blob_names (U0 \<union> set (tokens pre))"
      by (simp add: index_inv_def good_memory_def)
    with f obtain t where t: "t \<in> U0 \<union> set (tokens pre)" and ft: "f = t @ ''.dat''"
      by (auto simp: blob_names_def)
    have "tok \<in> set (tokens post)" using s by (force simp: tokens_def)
    then have "tok \<notin> U0 \<union> set (tokens pre)" using fresh new by (auto simp: ops tokens_append)
    with t ft show ?thesis by auto
  qed
  have 3: "saved_snapshots L (U0 \<union> set (tokens ops)) (disk w')"
    using inv by (simp add: index_inv_def)
  show ?thesis
    using r 1 2 3 by blast
qed

theorem blob_identifiers_unique_and_never_reused_witness:
  "(\<forall>m l. json_loads ref_lib (json_dumps ref_lib (state_obj m l)) = Inr (state_obj m l)) \<and>
   dir_example ''s.state'' = Some (json_dumps ref_lib (state_obj [(''a'', ''00.dat'')] False)) \<and>
   saved_snapshots ref_lib {''00''} dir_example \<and>
   distinct (tokens ops_example) \<and>
   set (tokens ops_example) \<inter> {''00''} = {} \<and>
   ops_example = [OpLoad ''s'', OpSet ''b'' (PStr ''x'') ''01'' ''iv1'']
     @ [OpSave ''t'', OpDelete ''a'', OpClear, OpLoad ''t'', OpSet ''c'' (PInt 5) ''02'' ''iv2''] \<and>
   map_option memory (run ref_lib [OpLoad ''s'', OpSet ''b'' (PStr ''x'') ''01'' ''iv1'']
     (MemoryManager_init (Some (enc_str ''salt'' @ ''correct horse'')) dir_example))
     = Some [(''a'', ''00.dat''), (''b'', ''01.dat'')] \<and>
   map_option memory (run ref_lib ops_example
     (MemoryManager_init (Some (enc_str ''salt'' @ ''correct horse'')) dir_example))
     = Some [(''a'', ''00.dat''), (''b'', ''01.dat''), (''c'', ''02.dat'')] \<and>
   ''02'' @ ''.dat'' \<noteq> ''01.dat'' \<and>
   (\<exists>w'. run ref_lib ops_example
       (MemoryManager_init (Some (enc_str ''salt'' @ ''correct horse'')) dir_example) = Some w' \<and>
     saved_snapshots ref_lib ({''00''} \<union> set (tokens ops_example)) (disk w'))"
proof -
  have rt: "\<forall>m l. json_loads ref_lib (json_dumps ref_lib (state_obj m l)) = Inr (state_obj m l)"
    by (simp add: ref_lib_simps ref_loads_enc_val json_form_state_obj)
  then have rt': "\<forall>m l. distinct (map fst m) \<longrightarrow>
      json_loads ref_lib (json_dumps ref_lib (state_obj m l)) = Inr (state_obj m l)"
    by simp
  have s: "dir_example ''s.state'' = Some (json_dumps ref_lib (state_obj [(''a'', ''00.dat'')] False))"
    by (simp add: dir_example_eq ref_lib_simps)
  have snaps: "saved_snapshots ref_lib {''00''} dir_example"
    unfolding saved_snapshots_def
  proof (intro allI impI)
    fix name c
    assume a: "dir_example (name @ ''.state'') = Some c"
    then have "c = json_dumps ref_lib (state_obj [(''a'', ''00.dat'')] False)"
      by (simp add: dir_example_eq ref_lib_simps state_not_salt split: if_splits)
    moreover have "good_memory {''00''} [(''a'', ''00.dat'')]"
      by (simp add: good_memory_def blob_names_def)
    ultimately show "\<exists>m. c = json_dumps ref_lib (state_obj m False) \<and> good_memory {''00''} m"
      by blast
  qed
  have fresh: "distinct (tokens ops_example)"
    by (simp add: ops_example_def tokens_def)
  have new: "set (tokens ops_example) \<inter> {''00''} = {}"
    by (simp add: ops_example_def tokens_def)
  have split: "ops_example = [OpLoad ''s'', OpSet ''b'' (PStr ''x'') ''01'' ''iv1'']
     @ [OpSave ''t'', OpDelete ''a'', OpClear, OpLoad ''t'', OpSet ''c'' (PInt 5) ''02'' ''iv2'']"
    by (simp add: ops_example_def)
  obtain w1 where w1: "run ref_lib [OpLoad ''s'', OpSet ''b'' (PStr ''x'') ''01'' ''iv1'']
      (MemoryManager_init (Some (enc_str ''salt'' @ ''correct horse'')) dir_example) = Some w1"
    and m1: "memory w1 = [(''a'', ''00.dat''), (''b'', ''01.dat'')]"
    using run_ops_example_prefix by auto
  have f: "''01.dat'' \<in> snd ` set (memory w1)" by (simp add: m1)
  have post: "OpSet ''c'' (PInt 5) ''02'' ''iv2''
      \<in> set [OpSave ''t'', OpDelete ''a'', OpClear, OpLoad ''t'', OpSet ''c'' (PInt 5) ''02'' ''iv2'']"
    by simp
  from blob_identifiers_unique_and_never_reused [OF rt' snaps fresh new,
      of "Some (enc_str ''salt'' @ ''correct horse'')"]
  obtain w' where r: "run ref_lib ops_example
        (MemoryManager_init (Some (enc_str ''salt'' @ ''correct horse'')) dir_example) = Some w'"
    and reuse: "\<forall>pre post w1 f key val tok nonce.
        ops_example = pre @ post \<longrightarrow>
        run ref_lib pre (MemoryManager_init (Some (enc_str ''salt'' @ ''correct horse'')) dir_example)
          = Some w1 \<longrightarrow>
        f \<in> snd ` set (memory w1) \<longrightarrow>
        OpSet key val tok nonce \<in> set post \<longrightarrow> tok @ ''.dat'' \<noteq> f"
    and left: "saved_snapshots ref_lib ({''00''} \<union> set (tokens ops_example)) (disk w')"
    by blast
  have "''02'' @ ''.dat'' \<noteq> ''01.dat''"
    using reuse split w1 f post by blast
  with rt s snaps fresh new split run_ops_example_prefix run_ops_example r left
  show ?thesis by blast
qed

text \<open>
  C9. \<^verbatim>\<open>save\<close> is refused on a locked index. On an unlocked one the text it writes is the
  text of the dictionary with the two entries \<^verbatim>\<open>'memory'\<close>, the dictionary of the index,
  and \<^verbatim>\<open>'locked'\<close>, which is \<^verbatim>\<open>False\<close>. Hence an unlocked index that loads a snapshot
  written by \<^verbatim>\<open>save\<close> (read back by \<^verbatim>\<open>json\<close> as it was written) takes the saved
  dictionary and stays unlocked; a locked index refuses the \<^verbatim>\<open>load\<close>.
\<close>

theorem save_records_unlocked_flag:
  "(locked w \<longrightarrow> MemoryManager_save L name w = (Inl (RuntimeError ''Memory is locked''), w)) \<and>
   (\<not> locked w \<longrightarrow>
      MemoryManager_save L name w
        = (Inr (), w\<lparr>disk := (disk w)(name @ ''.state'' \<mapsto>
             json_dumps L
               (PDict [(KStr ''memory'', PDict (map (\<lambda>(k, f). (KStr k, PStr f)) (memory w))),
                       (KStr ''locked'', PBool False)]))\<rparr>)) \<and>
   map_of [(KStr ''memory'', PDict (map (\<lambda>(k, f). (KStr k, PStr f)) (memory w))),
           (KStr ''locked'', PBool False)] (KStr ''locked'') = Some (PBool False) \<and>
   (\<forall>w2 name2.
      disk w2 (name2 @ ''.state'')
        = Some (json_dumps L
            (PDict [(KStr ''memory'', PDict (map (\<lambda>(k, f). (KStr k, PStr f)) (memory w))),
                    (KStr ''locked'', PBool False)])) \<longrightarrow>
      json_loads L
         (json_dumps L
            (PDict [(KStr ''memory'', PDict (map (\<lambda>(k, f). (KStr k, PStr f)) (memory w))),
                    (KStr ''locked'', PBool False)]))
        = Inr (PDict [(KStr ''memory'', PDict (map (\<lambda>(k, f). (KStr k, PStr f)) (memory w))),
                      (KStr ''locked'', PBool False)]) \<longrightarrow>
      (\<not> locked w2 \<longrightarrow>
         MemoryManager_load L name2 w2 = Some (Inr (), w2\<lparr>memory := memory w, locked := False\<rparr>)) \<and>
      (locked w2 \<longrightarrow>
         MemoryManager_load L name2 w2 = Some (Inl (RuntimeError ''Memory is locked''), w2)))"
proof -
  have s: "PDict [(KStr ''memory'', PDict (map (\<lambda>(k, f). (KStr k, PStr f)) (memory w))),
                  (KStr ''locked'', PBool False)] = state_obj (memory w) False"
    by (simp add: state_obj_def)
  show ?thesis
    unfolding s
    by (auto simp: MemoryManager_save_def MemoryManager_load_def read_state_snapshot Let_def)
qed

theorem save_records_unlocked_flag_witness:
  "MemoryManager_save ref_lib ''s'' (w_one\<lparr>locked := True\<rparr>)
     = (Inl (RuntimeError ''Memory is locked''), w_one\<lparr>locked := True\<rparr>) \<and>
   MemoryManager_save ref_lib ''s'' w_one
     = (Inr (), w_one\<lparr>disk := (disk w_one)(''s.state'' \<mapsto>
          enc_val (PDict [(KStr ''memory'', PDict [(KStr ''a'', PStr ''00.dat'')]),
                          (KStr ''locked'', PBool False)]))\<rparr>) \<and>
   disk w_stale ''s.state''
     = Some (enc_val (PDict [(KStr ''memory'', PDict [(KStr ''a'', PStr ''00.dat'')]),
                             (KStr ''locked'', PBool False)])) \<and>
   MemoryManager_load ref_lib ''s'' w_stale = Some (Inr (), w_stale) \<and>
   MemoryManager_load ref_lib ''s'' (w_stale\<lparr>locked := True\<rparr>)
     = Some (Inl (RuntimeError ''Memory is locked''), w_stale\<lparr>locked := True\<rparr>)"
proof -
  have n: "json_native (PDict [(KStr ''memory'', PDict [(KStr ''a'', PStr ''00.dat'')]),
                               (KStr ''locked'', PBool False)])"
    by simp
  have d: "disk w_stale ''s.state''
     = Some (enc_val (PDict [(KStr ''memory'', PDict [(KStr ''a'', PStr ''00.dat'')]),
                             (KStr ''locked'', PBool False)]))"
    by (simp add: w_stale_eq state_obj_def)
  show ?thesis
    using save_records_unlocked_flag [of "w_one\<lparr>locked := True\<rparr>" ref_lib "''s''"]
      save_records_unlocked_flag [of w_one ref_lib "''s''", THEN conjunct2, THEN conjunct2,
        THEN conjunct2, rule_format, of w_stale "''s''"]
      save_records_unlocked_flag [of w_one ref_lib "''s''", THEN conjunct2, THEN conjunct2,
        THEN conjunct2, rule_format, of "w_stale\<lparr>locked := True\<rparr>" "''s''"]
      save_records_unlocked_flag [of w_one ref_lib "''s''"]
      d ref_loads_native [OF n]
    by (simp add: w_one_eq w_stale_eq ref_lib_simps state_obj_def)
qed

text \<open>
  C10. When the index is unlocked and the vault holds no key, \<^verbatim>\<open>set\<close> raises the vault's
  \<^verbatim>\<open>ValueError("Storage is locked")\<close> and nothing has changed: neither the dictionary nor
  any file.
\<close>

theorem set_without_key_changes_nothing:
  "\<not> locked w \<Longrightarrow> fernet w = None \<Longrightarrow>
   MemoryManager_set L tok nonce key val w = (Inl (ValueError ''Storage is locked''), w)"
  by (simp add: MemoryManager_set_def Storage_encrypt_def)

theorem set_without_key_changes_nothing_witness:
  "\<not> locked (MemoryManager_init None Map.empty) \<and>
   fernet (MemoryManager_init None Map.empty) = None \<and>
   MemoryManager_set ref_lib ''00ff'' ''iv'' ''a'' (PInt 42) (MemoryManager_init None Map.empty)
     = (Inl (ValueError ''Storage is locked''), MemoryManager_init None Map.empty)"
  using set_without_key_changes_nothing
    [of "MemoryManager_init None Map.empty" ref_lib "''00ff''" "''iv''" "''a''" "PInt 42"]
  by (simp add: MemoryManager_init_def)

end
